theory Spec2Isabelle
  imports Complex_Main
begin

section \<open>Shared conventions\<close>

text \<open>
  Identifiers (Slack users, channels, message timestamps, scheduler job ids) are Python
  strings. A \<open>datetime\<close> is the number of microseconds since a fixed origin, a
  \<open>timedelta\<close> a signed number of microseconds; this is the resolution of Python's
  \<open>datetime\<close> module. User-facing texts contain no data beyond their parameters, so each
  text is a constructor of a datatype that carries exactly the interpolated values.
\<close>

type_synonym user_id = string
type_synonym channel_id = string
type_synonym job_id = string
type_synonym match_id = string
type_synonym datetime = int
type_synonym timedelta = int

definition timedelta_minutes :: "int \<Rightarrow> timedelta" where
  "timedelta_minutes n = n * 60000000"

definition timedelta_seconds :: "int \<Rightarrow> timedelta" where
  "timedelta_seconds n = n * 1000000"

text \<open>
  Python's \<open>int(x / d)\<close> on a float quotient truncates towards zero. At microsecond
  resolution and for the durations compared here the float quotient truncates to the same
  integer as the exact one.
\<close>

definition int_trunc_div :: "int \<Rightarrow> int \<Rightarrow> int" where
  "int_trunc_div a d = (if 0 \<le> a then a div d else - ((- a) div d))"

text \<open>Python truthiness of an optional string: \<open>None\<close> and \<open>""\<close> are falsy.\<close>

definition truthy :: "string option \<Rightarrow> bool" where
  "truthy v = (case v of None \<Rightarrow> False | Some t \<Rightarrow> t \<noteq> [])"

section \<open>The coffee matching service (src/services/match\_service.py)\<close>

datatype match_status = Active | Closed

datatype summary_text = NoConversationSummary | LlmSummary string

record match_row =
  row_id :: match_id
  row_channel_id :: channel_id
  user1_id :: user_id
  user2_id :: user_id
  row_status :: match_status
  row_summary :: "summary_text option"

text \<open>The callback and arguments a scheduled one-shot job holds.\<close>

datatype job = TimeoutUser user_id | CloseMatch channel_id match_id

text \<open>The texts the service posts to a channel.\<close>

datatype chat_message =
    IceBreaker string
  | TimeoutNotice
  | AdminReport channel_id user_id user_id summary_text
  | ClosingNotice

text \<open>The strings \<open>request_coffee\<close> returns to the command layer.\<close>

datatype reply =
    CooldownMsg int
  | AlreadyWaitingMsg
  | MatchedMsg
  | WaitingMsg

datatype failed_step = OpenConversation | RepoCreate | QuickAsk | PostMessage

datatype error = CemilBotError failed_step

text \<open>
  The service object: its three own fields (\<open>waiting_pool\<close>, \<open>last_request_time\<close>,
  \<open>pool_timeout_jobs\<close>), the configured admin channel (\<open>ADMIN_CHANNEL_ID\<close> of the
  environment), and the collaborators it holds references to, each represented by the
  part of its state the service can change.
\<close>

text \<open>
  Modelled from the spec: the collaborator classes \<open>CronClient\<close>, \<open>MatchRepository\<close>,
  \<open>ChatManager\<close> and \<open>ConversationManager\<close> are imported by the service module and
  defined elsewhere. \<open>CronClient\<close> (\<open>add_once_job\<close>, \<open>remove_job\<close>) is a table of
  pending one-shot jobs addressed by a caller-supplied identifier; \<open>MatchRepository\<close>
  (\<open>create\<close>, \<open>update\<close>, \<open>get\<close>) is a row store; \<open>ChatManager.post_message\<close>
  appends to a log of posted messages; \<open>ConversationManager.close_conversation\<close>
  records the closed channel. Where the service guards a call with \<open>try\<close>, the call's
  failure is an input of the model.
\<close>

record service =
  waiting_pool :: "user_id list"
  last_request_time :: "user_id \<rightharpoonup> datetime"
  pool_timeout_jobs :: "user_id \<rightharpoonup> job_id"
  admin_channel :: "string option"
  cron :: "job_id \<rightharpoonup> job"
  match_repo :: "match_row list"
  chat :: "(channel_id \<times> chat_message) list"
  closed_conversations :: "channel_id list"

definition init_service :: "string option \<Rightarrow> service" where
  "init_service adm =
     \<lparr> waiting_pool = [], last_request_time = Map.empty, pool_timeout_jobs = Map.empty,
       admin_channel = adm, cron = Map.empty, match_repo = [], chat = [],
       closed_conversations = [] \<rparr>"

text \<open>
  \<open>can_request_coffee\<close>: the cooldown test comes first, the pool test second. The
  clock reading \<open>now\<close> is \<open>datetime.now()\<close>.
\<close>

definition can_request_coffee :: "service \<Rightarrow> datetime \<Rightarrow> user_id \<Rightarrow> bool \<times> reply option" where
  "can_request_coffee s now uid =
     (let in_cooldown =
            (case last_request_time s uid of
               None \<Rightarrow> None
             | Some last_time \<Rightarrow>
                 (let elapsed = now - last_time in
                  if elapsed < timedelta_minutes 5
                  then Some (5 - int_trunc_div elapsed (timedelta_minutes 1))
                  else None))
      in case in_cooldown of
           Some remaining \<Rightarrow> (False, Some (CooldownMsg remaining))
         | None \<Rightarrow>
             if uid \<in> set (waiting_pool s) then (False, Some AlreadyWaitingMsg)
             else (True, None))"

text \<open>
  What the outside world answers during one \<open>request_coffee\<close> call: the two clock
  readings (one in \<open>can_request_coffee\<close>, one when the request time is recorded), and
  the results of the calls inside \<open>start_match\<close>; \<open>None\<close> or \<open>False\<close> stands for the
  call raising an exception.
\<close>

record request_env =
  now_check :: datetime
  now_record :: datetime
  conv_open :: "channel_id option"
  repo_create :: "match_id option"
  groq_answer :: "string option"
  post_ok :: bool

text \<open>
  \<open>start_match\<close>: the whole body is inside one \<open>try\<close>; any exception is re-raised as
  \<open>CemilBotError\<close>, and what was done before it stays done.
\<close>

definition start_match :: "service \<Rightarrow> request_env \<Rightarrow> user_id \<Rightarrow> user_id \<Rightarrow> service \<times> error option" where
  "start_match s e uid1 uid2 =
     (case conv_open e of
        None \<Rightarrow> (s, Some (CemilBotError OpenConversation))
      | Some ch \<Rightarrow>
          (case repo_create e of
             None \<Rightarrow> (s, Some (CemilBotError RepoCreate))
           | Some mid \<Rightarrow>
               (let s1 = s\<lparr>match_repo := match_repo s @
                            [\<lparr> row_id = mid, row_channel_id = ch, user1_id = uid1,
                               user2_id = uid2, row_status = Active, row_summary = None \<rparr>]\<rparr>
                in case groq_answer e of
                     None \<Rightarrow> (s1, Some (CemilBotError QuickAsk))
                   | Some ice_breaker \<Rightarrow>
                       if \<not> post_ok e then (s1, Some (CemilBotError PostMessage))
                       else
                         (let s2 = s1\<lparr>chat := chat s1 @ [(ch, IceBreaker ice_breaker)]\<rparr>
                          in (s2\<lparr>cron := (cron s2)(''close_match_'' @ ch \<mapsto> CloseMatch ch mid)\<rparr>,
                              None)))))"

text \<open>
  \<open>request_coffee\<close>. The result is the new service state together with either the
  returned text or the exception that left the coroutine. Two blocks of its body are
  named: \<open>cancel_partner_timeout\<close> is the \<open>if partner_id in self.pool_timeout_jobs\<close>
  block of the matching branch, \<open>enter_pool\<close> the state change of the waiting branch.
\<close>

definition cancel_partner_timeout :: "service \<Rightarrow> user_id \<Rightarrow> service" where
  "cancel_partner_timeout s partner =
     (case pool_timeout_jobs s partner of
        None \<Rightarrow> s
      | Some j \<Rightarrow>
          s\<lparr>cron := (cron s)(j := None),
            pool_timeout_jobs := (pool_timeout_jobs s)(partner := None)\<rparr>)"

definition enter_pool :: "service \<Rightarrow> user_id \<Rightarrow> service" where
  "enter_pool s uid =
     (let s2 = s\<lparr>waiting_pool := waiting_pool s @ [uid]\<rparr>;
          jid = ''coffee_timeout_'' @ uid;
          s3 = s2\<lparr>cron := (cron s2)(jid \<mapsto> TimeoutUser uid)\<rparr>
      in s3\<lparr>pool_timeout_jobs := (pool_timeout_jobs s3)(uid \<mapsto> jid)\<rparr>)"

definition request_coffee ::
  "service \<Rightarrow> request_env \<Rightarrow> user_id \<Rightarrow> channel_id \<Rightarrow> service \<times> (error + reply option)" where
  "request_coffee s e uid channel =
     (let (can_request, error_msg) = can_request_coffee s (now_check e) uid
      in if \<not> can_request then (s, Inr error_msg)
         else
           (let s1 = s\<lparr>last_request_time := (last_request_time s)(uid \<mapsto> now_record e)\<rparr>
            in case waiting_pool s1 of
                 partner # rest \<Rightarrow>
                   (let s2 = cancel_partner_timeout (s1\<lparr>waiting_pool := rest\<rparr>) partner
                    in case start_match s2 e uid partner of
                         (s3, Some err) \<Rightarrow> (s3, Inl err)
                       | (s3, None) \<Rightarrow> (s3, Inr (Some MatchedMsg)))
               | [] \<Rightarrow> (enter_pool s1 uid, Inr (Some WaitingMsg))))"

text \<open>
  \<open>_timeout_user\<close>: the direct message is best effort (its \<open>try\<close> swallows every
  exception); \<open>list.remove\<close> deletes the first occurrence.
\<close>

record timeout_env =
  dm_open :: "channel_id option"
  dm_post_ok :: bool

definition timeout_user :: "service \<Rightarrow> timeout_env \<Rightarrow> user_id \<Rightarrow> service" where
  "timeout_user s e uid =
     (let s1 = (if uid \<in> set (waiting_pool s)
                then (let s' = s\<lparr>waiting_pool := remove1 uid (waiting_pool s)\<rparr>
                      in case dm_open e of
                           None \<Rightarrow> s'
                         | Some dm \<Rightarrow>
                             if dm_post_ok e then s'\<lparr>chat := chat s' @ [(dm, TimeoutNotice)]\<rparr>
                             else s')
                else s)
      in if uid \<in> dom (pool_timeout_jobs s1)
         then s1\<lparr>pool_timeout_jobs := (pool_timeout_jobs s1)(uid := None)\<rparr>
         else s1)"

text \<open>
  \<open>close_match\<close>. One \<open>try\<close> spans the body and its handler only logs: an
  exception at any step ends the call with the effects of the earlier steps in place.
  A history entry is a human message when its \<open>bot_id\<close> is falsy and its \<open>type\<close> is
  \<open>"message"\<close>.
\<close>

record slack_msg =
  bot_id :: "string option"
  msg_type :: "string option"
  msg_text :: "string option"

record close_env =
  history :: "slack_msg list option"
  groq_summary :: "string option"
  update_ok :: bool
  admin_post_ok :: bool
  closing_post_ok :: bool
  conv_close_ok :: bool

definition repo_update :: "match_row list \<Rightarrow> match_id \<Rightarrow> summary_text \<Rightarrow> match_row list" where
  "repo_update rows mid summ =
     map (\<lambda>r. if row_id r = mid then r\<lparr>row_status := Closed, row_summary := Some summ\<rparr> else r) rows"

definition repo_get :: "match_row list \<Rightarrow> match_id \<Rightarrow> match_row option" where
  "repo_get rows mid = find (\<lambda>r. row_id r = mid) rows"

text \<open>\<open>if self.admin_channel:\<close> holds for a configured, non-empty channel name.\<close>

definition admin_target :: "service \<Rightarrow> channel_id option" where
  "admin_target s = (if truthy (admin_channel s) then admin_channel s else None)"

text \<open>
  Steps 5 and 6 of \<open>close_match\<close>, on the state \<open>s1\<close> the repository update left:
  the report to the admin channel, then the closing notice and the closing of the
  conversation.
\<close>

definition report_and_close ::
  "service \<Rightarrow> close_env \<Rightarrow> channel_id \<Rightarrow> match_id \<Rightarrow> summary_text \<Rightarrow> service" where
  "report_and_close s1 e ch mid summ =
     (let reported =
            (case admin_target s1 of
               None \<Rightarrow> Some s1
             | Some adm \<Rightarrow>
                 (case repo_get (match_repo s1) mid of
                    None \<Rightarrow> None
                  | Some match_data \<Rightarrow>
                      if admin_post_ok e
                      then Some (s1\<lparr>chat := chat s1 @
                             [(adm, AdminReport ch (user1_id match_data)
                                      (user2_id match_data) summ)]\<rparr>)
                      else None))
      in case reported of
           None \<Rightarrow> s1
         | Some s2 \<Rightarrow>
             if \<not> closing_post_ok e then s2
             else
               (let s3 = s2\<lparr>chat := chat s2 @ [(ch, ClosingNotice)]\<rparr>
                in if conv_close_ok e
                   then s3\<lparr>closed_conversations := closed_conversations s3 @ [ch]\<rparr>
                   else s3))"

text \<open>
  Steps 2 and 3 of \<open>close_match\<close>: the human messages of the history, and the summary
  (the fixed sentence when there is no human message, the answer of the language model
  otherwise; \<open>None\<close> when that call raises).
\<close>

definition user_messages :: "slack_msg list \<Rightarrow> slack_msg list" where
  "user_messages messages =
     filter (\<lambda>m. \<not> truthy (bot_id m) \<and> msg_type m = Some ''message'') messages"

definition summary_for :: "close_env \<Rightarrow> slack_msg list \<Rightarrow> summary_text option" where
  "summary_for e messages =
     (if user_messages messages \<noteq> [] then map_option LlmSummary (groq_summary e)
      else Some NoConversationSummary)"

definition close_match :: "service \<Rightarrow> close_env \<Rightarrow> channel_id \<Rightarrow> match_id \<Rightarrow> service" where
  "close_match s e ch mid =
     (case history e of
        None \<Rightarrow> s
      | Some messages \<Rightarrow>
          (case summary_for e messages of
             None \<Rightarrow> s
           | Some summ \<Rightarrow>
               if \<not> update_ok e then s
               else report_and_close (s\<lparr>match_repo := repo_update (match_repo s) mid summ\<rparr>)
                      e ch mid summ))"

text \<open>
  Executions: the operations run one after the other, each on the state the previous one
  left.
\<close>

datatype event =
    Request user_id channel_id request_env
  | Expire user_id timeout_env
  | Close channel_id match_id close_env

fun step :: "service \<Rightarrow> event \<Rightarrow> service" where
  "step s (Request uid ch e) = fst (request_coffee s e uid ch)"
| "step s (Expire uid e) = timeout_user s e uid"
| "step s (Close ch mid e) = close_match s e ch mid"

definition run :: "service \<Rightarrow> event list \<Rightarrow> service" where
  "run s evs = foldl step s evs"

text \<open>
  An environment for runs in which only the clock matters: both clock readings of the call
  are \<open>t\<close> and every call to a collaborator fails.
\<close>

definition clock_env :: "datetime \<Rightarrow> request_env" where
  "clock_env t = \<lparr> now_check = t, now_record = t, conv_open = None, repo_create = None,
                   groq_answer = None, post_ok = False \<rparr>"

text \<open>
  Two invariants of the service state: no user occurs twice in the pool and every waiting
  user has the handle of their timeout job recorded; every stored match pairs two
  different users.
\<close>

definition pool_inv :: "service \<Rightarrow> bool" where
  "pool_inv s \<longleftrightarrow>
     distinct (waiting_pool s) \<and>
     list_all (\<lambda>u. pool_timeout_jobs s u = Some (''coffee_timeout_'' @ u)) (waiting_pool s)"

definition pairs_inv :: "service \<Rightarrow> bool" where
  "pairs_inv s \<longleftrightarrow> list_all (\<lambda>r. user1_id r \<noteq> user2_id r) (match_repo s)"

text \<open>
  Concrete states and environments used in examples: \<open>one_waiting\<close> is the service after
  user \<open>A\<close>'s request at time 0 on a fresh service; in \<open>match_env\<close> every collaborator
  call of \<open>start_match\<close> succeeds, in \<open>open_fails\<close> opening the conversation raises, in
  \<open>create_fails\<close> persisting the match row raises (all one minute later).
\<close>

definition one_waiting :: service where
  "one_waiting = fst (request_coffee (init_service None) (clock_env 0) ''A'' ''C1'')"

definition match_env :: request_env where
  "match_env = \<lparr> now_check = timedelta_minutes 1, now_record = timedelta_minutes 1,
                 conv_open = Some ''G1'', repo_create = Some ''m1'',
                 groq_answer = Some ''hello'', post_ok = True \<rparr>"

definition open_fails :: request_env where
  "open_fails = match_env\<lparr>conv_open := None\<rparr>"

definition create_fails :: request_env where
  "create_fails = match_env\<lparr>repo_create := None\<rparr>"

text \<open>
  A service with a configured admin channel holding one active match, and an environment
  of \<open>close_match\<close> in which the conversation had no message and every call succeeds.
\<close>

definition one_match :: service where
  "one_match = (init_service (Some ''ADMIN''))
       \<lparr>match_repo := [\<lparr> row_id = ''m1'', row_channel_id = ''G1'', user1_id = ''B'',
                         user2_id = ''A'', row_status = Active, row_summary = None \<rparr>]\<rparr>"

definition quiet_close :: close_env where
  "quiet_close = \<lparr> history = Some [], groq_summary = None, update_ok = True,
                   admin_post_ok = True, closing_post_ok = True, conv_close_ok = True \<rparr>"

text \<open>
  A service state with two waiting users, \<open>A\<close> before \<open>X\<close>, each with a scheduled
  timeout job and its handle.
\<close>

definition two_waiting :: service where
  "two_waiting = (init_service None)
       \<lparr>waiting_pool := [''A'', ''X''],
        last_request_time := [''A'' \<mapsto> 0, ''X'' \<mapsto> 0],
        pool_timeout_jobs := [''A'' \<mapsto> ''coffee_timeout_A'', ''X'' \<mapsto> ''coffee_timeout_X''],
        cron := [''coffee_timeout_A'' \<mapsto> TimeoutUser ''A'',
                 ''coffee_timeout_X'' \<mapsto> TimeoutUser ''X'']\<rparr>"

section \<open>Python text and time primitives used by the poll commands\<close>

text \<open>
  Texts are sequences of ASCII characters. \<open>is_space\<close> is \<open>str.isspace\<close> on them
  (tab, line feed, vertical tab, form feed, carriage return, the four separators
  \<open>0x1c\<close> to \<open>0x1f\<close>, and the blank); \<open>strip\<close> is \<open>str.strip()\<close>,
  \<open>split_maxsplit1\<close> is \<open>str.split(maxsplit=1)\<close>, \<open>split_on\<close> is \<open>str.split(sep)\<close>.
\<close>

definition is_space :: "char \<Rightarrow> bool" where
  "is_space c \<longleftrightarrow>
     (let n = of_char c :: nat in (9 \<le> n \<and> n \<le> 13) \<or> (28 \<le> n \<and> n \<le> 32))"

definition strip :: "string \<Rightarrow> string" where
  "strip s = rev (dropWhile is_space (rev (dropWhile is_space s)))"

definition split_maxsplit1 :: "string \<Rightarrow> string list" where
  "split_maxsplit1 s =
     (let t = dropWhile is_space s
      in if t = [] then []
         else (let w = takeWhile (\<lambda>c. \<not> is_space c) t;
                   r = dropWhile is_space (dropWhile (\<lambda>c. \<not> is_space c) t)
               in if r = [] then [w] else [w, r]))"

fun split_on :: "char \<Rightarrow> string \<Rightarrow> string list" where
  "split_on sep [] = [[]]"
| "split_on sep (c # cs) =
     (if c = sep then [] # split_on sep cs
      else (case split_on sep cs of
              [] \<Rightarrow> [[c]]
            | p # ps \<Rightarrow> (c # p) # ps))"

text \<open>
  \<open>py_int\<close> is \<open>int(text)\<close>. On an ASCII text the conversion skips, at both ends,
  only the whitespace of the C locale (tab, line feed, vertical tab, form feed, carriage
  return and the blank): the separators \<open>0x1c\<close> to \<open>0x1f\<close>, which \<open>str.strip\<close> and
  \<open>str.split\<close> treat as whitespace, make it fail. One sign is allowed and the digits may
  be grouped by single underscores; \<open>None\<close> stands for \<open>ValueError\<close>. (An interpreter
  limit on the number of digits, where configured, is not modelled.)
\<close>

definition is_int_space :: "char \<Rightarrow> bool" where
  "is_int_space c \<longleftrightarrow> (let n = of_char c :: nat in (9 \<le> n \<and> n \<le> 13) \<or> n = 32)"

definition int_strip :: "string \<Rightarrow> string" where
  "int_strip s = rev (dropWhile is_int_space (rev (dropWhile is_int_space s)))"

definition is_digit :: "char \<Rightarrow> bool" where
  "is_digit c \<longleftrightarrow> (let n = of_char c :: nat in 48 \<le> n \<and> n \<le> 57)"

definition digit_val :: "char \<Rightarrow> int" where
  "digit_val c = int (of_char c) - 48"

fun parse_digits :: "int \<Rightarrow> string \<Rightarrow> int option" where
  "parse_digits acc [] = Some acc"
| "parse_digits acc [c] = (if is_digit c then Some (acc * 10 + digit_val c) else None)"
| "parse_digits acc (c # d # ds) =
     (if is_digit c then parse_digits (acc * 10 + digit_val c) (d # ds)
      else if c = CHR ''_'' \<and> is_digit d then parse_digits (acc * 10 + digit_val d) ds
      else None)"

definition digits_value :: "string \<Rightarrow> int option" where
  "digits_value s =
     (case s of
        [] \<Rightarrow> None
      | c # cs \<Rightarrow> if is_digit c then parse_digits (digit_val c) cs else None)"

definition py_int :: "string \<Rightarrow> int option" where
  "py_int s =
     (case int_strip s of
        [] \<Rightarrow> None
      | c # cs \<Rightarrow>
          if c = CHR ''-'' then map_option uminus (digits_value cs)
          else if c = CHR ''+'' then digits_value cs
          else digits_value (c # cs))"

text \<open>\<open>xs[i]\<close> on a Python list: a negative index counts from the end; \<open>None\<close> is \<open>IndexError\<close>.\<close>

definition py_index :: "'a list \<Rightarrow> int \<Rightarrow> 'a option" where
  "py_index xs i =
     (if 0 \<le> i \<and> i < int (length xs) then Some (xs ! nat i)
      else if i < 0 \<and> - int (length xs) \<le> i then Some (xs ! nat (int (length xs) + i))
      else None)"

text \<open>
  \<open>datetime.now() + timedelta(minutes=m)\<close>. With the origin at \<open>datetime.min\<close>, a
  \<open>datetime\<close> lies between 0 and \<open>datetime_max\<close> (the last microsecond of the year
  9999) and a \<open>timedelta\<close> spans at most 999999999 days; outside these bounds Python
  raises \<open>OverflowError\<close>, here \<open>None\<close>.
\<close>

definition datetime_max :: datetime where
  "datetime_max = 3652059 * 86400000000 - 1"

definition timedelta_ok :: "timedelta \<Rightarrow> bool" where
  "timedelta_ok d \<longleftrightarrow> - 999999999 * 86400000000 \<le> d \<and> d < 1000000000 * 86400000000"

definition now_plus_minutes :: "datetime \<Rightarrow> int \<Rightarrow> datetime option" where
  "now_plus_minutes now m =
     (let d = timedelta_minutes m
      in if timedelta_ok d \<and> 0 \<le> now + d \<and> now + d \<le> datetime_max then Some (now + d)
         else None)"

section \<open>The poll store (database.py)\<close>

text \<open>
  The tables \<open>polls\<close> and \<open>votes\<close> as lists of rows in insertion order. The column
  \<open>options\<close> holds the JSON text of a list of strings, written by \<open>json.dumps\<close> and read
  by \<open>json.loads\<close>; the row holds the list. \<open>end_time\<close> is written with a resolution of
  one second. Every function of the module catches all exceptions of its database call,
  logs and returns a default; the argument \<open>ok\<close> says whether the call succeeds.
\<close>

record poll_row =
  poll_id :: nat
  poll_channel_id :: channel_id
  message_ts :: string
  creator_id :: user_id
  topic :: string
  options :: "string list"
  end_time :: datetime
  is_active :: bool

record vote_row =
  vote_poll_id :: nat
  vote_user_id :: user_id
  option_index :: int

record db =
  polls :: "poll_row list"
  votes :: "vote_row list"

text \<open>\<open>AUTOINCREMENT\<close>: one more than the largest identifier in use (rows are never deleted).\<close>

definition next_poll_id :: "db \<Rightarrow> nat" where
  "next_poll_id d = Suc (fold max (map poll_id (polls d)) 0)"

definition create_poll ::
  "bool \<Rightarrow> db \<Rightarrow> channel_id \<Rightarrow> string \<Rightarrow> user_id \<Rightarrow> string \<Rightarrow> string list \<Rightarrow> datetime
     \<Rightarrow> db \<times> nat option" where
  "create_poll ok d channel ts creator tp opts endt =
     (if ok
      then (d\<lparr>polls := polls d @
               [\<lparr> poll_id = next_poll_id d, poll_channel_id = channel, message_ts = ts,
                  creator_id = creator, topic = tp, options = opts,
                  end_time = (endt div 1000000) * 1000000, is_active = True \<rparr>]\<rparr>,
            Some (next_poll_id d))
      else (d, None))"

text \<open>
  \<open>INSERT OR REPLACE\<close> on the primary key \<open>(poll_id, user_id)\<close>: a row with the same key
  is deleted, then the new row is inserted. A Python integer is bound to the statement as
  a signed 64-bit SQLite \<open>INTEGER\<close>; for an option index outside that range \<open>execute\<close>
  raises \<open>OverflowError\<close>, which the function catches like any database error: nothing
  is stored and the result is \<open>False\<close>.
\<close>

definition sqlite_integer :: "int \<Rightarrow> bool" where
  "sqlite_integer i \<longleftrightarrow> - 9223372036854775808 \<le> i \<and> i \<le> 9223372036854775807"

definition add_vote :: "bool \<Rightarrow> db \<Rightarrow> nat \<Rightarrow> user_id \<Rightarrow> int \<Rightarrow> db \<times> bool" where
  "add_vote ok d pid uid idx =
     (if ok \<and> sqlite_integer idx
      then (d\<lparr>votes := filter (\<lambda>v. \<not> (vote_poll_id v = pid \<and> vote_user_id v = uid)) (votes d) @
               [\<lparr> vote_poll_id = pid, vote_user_id = uid, option_index = idx \<rparr>]\<rparr>,
            True)
      else (d, False))"

definition has_user_voted :: "bool \<Rightarrow> db \<Rightarrow> nat \<Rightarrow> user_id \<Rightarrow> bool" where
  "has_user_voted ok d pid uid =
     (if ok then list_ex (\<lambda>v. vote_poll_id v = pid \<and> vote_user_id v = uid) (votes d)
      else False)"

text \<open>
  \<open>get_poll_results\<close>: the dictionary built from \<open>GROUP BY option_index\<close> has a key for
  each option index that occurs in a vote of the poll, with the number of those votes.
\<close>

definition get_poll_results :: "bool \<Rightarrow> db \<Rightarrow> nat \<Rightarrow> (int \<rightharpoonup> nat)" where
  "get_poll_results ok d pid =
     (if ok
      then (\<lambda>i. let c = length (filter (\<lambda>v. vote_poll_id v = pid \<and> option_index v = i) (votes d))
                in if c = 0 then None else Some c)
      else Map.empty)"

definition close_poll :: "bool \<Rightarrow> db \<Rightarrow> nat \<Rightarrow> db \<times> bool" where
  "close_poll ok d pid =
     (if ok
      then (d\<lparr>polls := map (\<lambda>p. if poll_id p = pid then p\<lparr>is_active := False\<rparr> else p) (polls d)\<rparr>,
            True)
      else (d, False))"

text \<open>\<open>get_poll_by_ts\<close>: \<open>fetchone\<close> yields the first row with the message timestamp.\<close>

definition get_poll_by_ts :: "bool \<Rightarrow> db \<Rightarrow> string \<Rightarrow> poll_row option" where
  "get_poll_by_ts ok d ts = (if ok then find (\<lambda>p. message_ts p = ts) (polls d) else None)"

section \<open>The poll commands (bot.py) and the closing task (scheduler.py)\<close>

text \<open>
  The texts sent to one user (\<open>chat_postEphemeral\<close>) and the messages posted to a
  channel, each with the values its text interpolates. A result message lists one line
  per option (label and count) and ends with the winners or with the remark that nobody
  voted.
\<close>

datatype ephemeral =
    AdminOnlyMsg
  | BadFormatMsg
  | PollNotStartedMsg
  | PollEndedMsg
  | AlreadyVotedMsg
  | VoteRecordedMsg string
  | VoteFailedMsg

datatype outcome = Winners "string list" | NoVotesCast

datatype poll_message =
    NewPoll string int user_id "string list"
  | PollResult string "(string \<times> int) list" outcome

datatype slack_call =
    PostEphemeral channel_id user_id ephemeral
  | PostMessage channel_id poll_message
  | DeleteMessage channel_id string

text \<open>
  The state the two modules work on: the database, the module variable
  \<open>_global_scheduler\<close> (\<open>None\<close> before \<open>start_scheduler\<close>; afterwards the pending
  one-shot jobs as identifier, message timestamp and run date) and the log of the calls
  made to the Slack client that succeeded. Texts to a single user are recorded as
  issued.
\<close>

record bot =
  database :: db
  global_scheduler :: "(job_id \<times> string \<times> datetime) list option"
  slack :: "slack_call list"

definition post_ephemeral :: "bot \<Rightarrow> channel_id \<Rightarrow> user_id \<Rightarrow> ephemeral \<Rightarrow> bot" where
  "post_ephemeral w channel user msg = w\<lparr>slack := slack w @ [PostEphemeral channel user msg]\<rparr>"

text \<open>
  \<open>is_admin\<close>: \<open>users_info\<close> is the answer of the Slack client, \<open>None\<close> when the call
  raises or the answer is not \<open>ok\<close>; the flags default to false.
\<close>

record slack_user =
  is_admin_flag :: bool
  is_owner_flag :: bool

definition is_admin :: "slack_user option \<Rightarrow> bool" where
  "is_admin info = (case info of None \<Rightarrow> False | Some u \<Rightarrow> is_admin_flag u \<or> is_owner_flag u)"

text \<open>
  \<open>schedule_poll_close\<close>: nothing happens without a scheduler; \<open>add_job\<close> raises for an
  identifier that is already pending. \<open>Inl\<close> is the exception.
\<close>

datatype py_exception = ValueError | IndexError | OverflowError | ConflictingIdError | SlackApiError

definition schedule_poll_close :: "bot \<Rightarrow> datetime \<Rightarrow> string \<Rightarrow> int \<Rightarrow> py_exception + bot" where
  "schedule_poll_close w now ts mins =
     (case global_scheduler w of
        None \<Rightarrow> Inr w
      | Some jobs \<Rightarrow>
          (case now_plus_minutes now mins of
             None \<Rightarrow> Inl OverflowError
           | Some run_at \<Rightarrow>
               if ''close_'' @ ts \<in> set (map fst jobs) then Inl ConflictingIdError
               else Inr (w\<lparr>global_scheduler := Some (jobs @ [(''close_'' @ ts, ts, run_at)])\<rparr>)))"

text \<open>
  Step 2 of \<open>handle_poll_command\<close>: the text after the command is split into the
  minutes, the topic and the options. \<open>None\<close> is \<open>ValueError\<close>.
\<close>

definition parse_poll_text :: "string \<Rightarrow> (int \<times> string \<times> string list) option" where
  "parse_poll_text text =
     (case split_maxsplit1 text of
        [m, rest] \<Rightarrow>
          (case py_int m of
             None \<Rightarrow> None
           | Some mins \<Rightarrow>
               (let content_parts = split_on CHR ''|'' rest
                in if length content_parts < 3 then None
                   else Some (mins, strip (hd content_parts), map strip (tl content_parts))))
      | _ \<Rightarrow> None)"

text \<open>
  What the outside world answers during one \<open>/oylama\<close> command: the user record for the
  admin test, the timestamp of the posted poll message (\<open>None\<close>: posting raises), the
  two clock readings (for \<open>end_time\<close> and for the run date), and whether the database
  insert succeeds.
\<close>

record poll_env =
  users_info :: "slack_user option"
  posted_ts :: "string option"
  now_end_time :: datetime
  now_run_at :: datetime
  create_poll_ok :: bool

definition handle_poll_command :: "bot \<Rightarrow> poll_env \<Rightarrow> user_id \<Rightarrow> channel_id \<Rightarrow> string \<Rightarrow> bot" where
  "handle_poll_command w e user channel raw_text =
     (let text = strip raw_text
      in if \<not> is_admin (users_info e) then post_ephemeral w channel user AdminOnlyMsg
         else
           (case parse_poll_text text of
              None \<Rightarrow> post_ephemeral w channel user BadFormatMsg
            | Some (mins, tp, opts) \<Rightarrow>
                (case posted_ts e of
                   None \<Rightarrow> post_ephemeral w channel user PollNotStartedMsg
                 | Some ts \<Rightarrow>
                     (let w1 = w\<lparr>slack := slack w @ [PostMessage channel (NewPoll tp mins user opts)]\<rparr>
                      in case now_plus_minutes (now_end_time e) mins of
                           None \<Rightarrow> post_ephemeral w1 channel user PollNotStartedMsg
                         | Some endt \<Rightarrow>
                             (let w2 = w1\<lparr>database :=
                                        fst (create_poll (create_poll_ok e) (database w1)
                                               channel ts user tp opts endt)\<rparr>
                              in case schedule_poll_close w2 (now_run_at e) ts mins of
                                   Inl _ \<Rightarrow> post_ephemeral w2 channel user PollNotStartedMsg
                                 | Inr w3 \<Rightarrow> w3)))))"

text \<open>
  \<open>handle_vote_action\<close>. The button value is parsed first; a poll that is not found ends
  the handler silently. The result is the new state and the exception that left the
  handler, if any.
\<close>

record vote_env =
  get_poll_ok :: bool
  has_voted_ok :: bool
  add_vote_ok :: bool

definition handle_vote_action ::
  "bot \<Rightarrow> vote_env \<Rightarrow> user_id \<Rightarrow> channel_id \<Rightarrow> string \<Rightarrow> string \<Rightarrow> bot \<times> py_exception option" where
  "handle_vote_action w e user channel ts button_value =
     (case py_int button_value of
        None \<Rightarrow> (w, Some ValueError)
      | Some idx \<Rightarrow>
          (case get_poll_by_ts (get_poll_ok e) (database w) ts of
             None \<Rightarrow> (w, None)
           | Some poll \<Rightarrow>
               if \<not> is_active poll then (post_ephemeral w channel user PollEndedMsg, None)
               else if has_user_voted (has_voted_ok e) (database w) (poll_id poll) user
               then (post_ephemeral w channel user AlreadyVotedMsg, None)
               else
                 (let (d, added) = add_vote (add_vote_ok e) (database w) (poll_id poll) user idx;
                      w1 = w\<lparr>database := d\<rparr>
                  in if added
                     then (case py_index (options poll) idx of
                             None \<Rightarrow> (w1, Some IndexError)
                           | Some label \<Rightarrow>
                               (post_ephemeral w1 channel user (VoteRecordedMsg label), None))
                     else (post_ephemeral w1 channel user VoteFailedMsg, None))))"

text \<open>
  The loop of \<open>close_poll_task\<close> over \<open>enumerate(options)\<close>, with the position \<open>i\<close> and
  the three variables it updates: the result lines, \<open>max_votes\<close> and \<open>winners\<close>.
\<close>

fun tally ::
  "(int \<rightharpoonup> nat) \<Rightarrow> nat \<Rightarrow> string list \<Rightarrow> (string \<times> int) list \<times> int \<times> string list
     \<Rightarrow> (string \<times> int) list \<times> int \<times> string list" where
  "tally results i [] acc = acc"
| "tally results i (opt # opts) (lines, max_votes, winners) =
     (let count = (case results (int i) of None \<Rightarrow> 0 | Some c \<Rightarrow> int c);
          lines' = lines @ [(opt, count)]
      in if count > max_votes then tally results (Suc i) opts (lines', count, [opt])
         else if count = max_votes \<and> count > 0
         then tally results (Suc i) opts (lines', max_votes, winners @ [opt])
         else tally results (Suc i) opts (lines', max_votes, winners))"

definition result_message :: "(int \<rightharpoonup> nat) \<Rightarrow> string \<Rightarrow> string list \<Rightarrow> poll_message" where
  "result_message results tp opts =
     (let (lines, max_votes, winners) = tally results 0 opts ([], - 1, [])
      in PollResult tp lines (if max_votes > 0 then Winners winners else NoVotesCast))"

record close_poll_env =
  lookup_ok :: bool
  results_ok :: bool
  close_ok :: bool
  delete_ok :: bool
  post_result_ok :: bool

definition close_poll_task :: "bot \<Rightarrow> close_poll_env \<Rightarrow> string \<Rightarrow> bot" where
  "close_poll_task w e ts =
     (case get_poll_by_ts (lookup_ok e) (database w) ts of
        None \<Rightarrow> w
      | Some poll \<Rightarrow>
          if \<not> is_active poll then w
          else
            (let results = get_poll_results (results_ok e) (database w) (poll_id poll);
                 w1 = w\<lparr>database := fst (close_poll (close_ok e) (database w) (poll_id poll))\<rparr>;
                 msg = result_message results (topic poll) (options poll);
                 w2 = (if delete_ok e
                       then w1\<lparr>slack := slack w1 @ [DeleteMessage (poll_channel_id poll) ts]\<rparr>
                       else w1)
             in if post_result_ok e
                then w2\<lparr>slack := slack w2 @ [PostMessage (poll_channel_id poll) msg]\<rparr>
                else w2))"

text \<open>
  For stating properties: the number of stored votes of poll \<open>pid\<close> whose option index is
  \<open>i\<close>, and these numbers for the options \<open>0, \<dots>, n - 1\<close> in order.
\<close>

definition stored_votes :: "db \<Rightarrow> nat \<Rightarrow> nat \<Rightarrow> int" where
  "stored_votes d pid i =
     int (length (filter (\<lambda>v. vote_poll_id v = pid \<and> option_index v = int i) (votes d)))"

definition option_counts :: "db \<Rightarrow> nat \<Rightarrow> nat \<Rightarrow> int list" where
  "option_counts d pid n = map (stored_votes d pid) [0..<n]"

text \<open>
  Concrete data used in examples: an open two-option poll posted as message \<open>100.1\<close> in
  channel \<open>C1\<close>, a bot state holding it together with given votes, and an environment
  in which every call of the closing task succeeds.
\<close>

definition lunch_poll :: poll_row where
  "lunch_poll = \<lparr> poll_id = 1, poll_channel_id = ''C1'', message_ts = ''100.1'',
                  creator_id = ''ADM'', topic = ''Lunch'', options = [''Kebap'', ''Pizza''],
                  end_time = 0, is_active = True \<rparr>"

definition vote :: "user_id \<Rightarrow> int \<Rightarrow> vote_row" where
  "vote u i = \<lparr> vote_poll_id = 1, vote_user_id = u, option_index = i \<rparr>"

definition lunch_bot :: "vote_row list \<Rightarrow> bot" where
  "lunch_bot vs = \<lparr> database = \<lparr> polls = [lunch_poll], votes = vs \<rparr>,
                    global_scheduler = Some [], slack = [] \<rparr>"

definition close_all_ok :: close_poll_env where
  "close_all_ok = \<lparr> lookup_ok = True, results_ok = True, close_ok = True,
                    delete_ok = True, post_result_ok = True \<rparr>"

text \<open>
  Further example data: an environment in which every database call of the vote handler
  succeeds; a bot with an empty database and a started scheduler; and a \<open>/oylama\<close>
  environment for an admin in which the poll message is posted as \<open>200.2\<close> and the insert
  succeeds (the clock reads a moment of the year 2022).
\<close>

definition votes_ok :: vote_env where
  "votes_ok = \<lparr> get_poll_ok = True, has_voted_ok = True, add_vote_ok = True \<rparr>"

definition fresh_bot :: bot where
  "fresh_bot = \<lparr> database = \<lparr> polls = [], votes = [] \<rparr>, global_scheduler = Some [], slack = [] \<rparr>"

definition admin_env :: poll_env where
  "admin_env = \<lparr> users_info = Some \<lparr> is_admin_flag = True, is_owner_flag = False \<rparr>,
                 posted_ts = Some ''200.2'', now_end_time = 63800000000000000,
                 now_run_at = 63800000000000000, create_poll_ok = True \<rparr>"

section \<open>The rate limiter (src/core/rate\_limiter.py)\<close>

text \<open>
  \<open>requests\<close> is a \<open>defaultdict(list)\<close>: every user has a list of request times, empty
  until the first allowed call. The text of a refusal carries the seconds to wait.
\<close>

record rate_limiter =
  max_requests :: int
  window_seconds :: int
  requests :: "user_id \<Rightarrow> datetime list"

definition new_rate_limiter :: "int \<Rightarrow> int \<Rightarrow> rate_limiter" where
  "new_rate_limiter m w = \<lparr> max_requests = m, window_seconds = w, requests = (\<lambda>_. []) \<rparr>"

datatype limiter_text = TooManyRequestsMsg int

text \<open>
  \<open>is_allowed\<close>, with the clock reading \<open>now\<close>. The slice assignment prunes the stored
  list in place, also when the call is refused; only an allowed call appends \<open>now\<close>.
\<close>

definition is_allowed ::
  "rate_limiter \<Rightarrow> datetime \<Rightarrow> user_id \<Rightarrow> rate_limiter \<times> bool \<times> limiter_text option" where
  "is_allowed rl now uid =
     (let cutoff_time = now - timedelta_seconds (window_seconds rl);
          user_requests = filter (\<lambda>req_time. req_time > cutoff_time) (requests rl uid)
      in if int (length user_requests) \<ge> max_requests rl
         then (let oldest_request = (if user_requests \<noteq> [] then Min (set user_requests) else now);
                   wait_seconds = int_trunc_div
                     (oldest_request + timedelta_seconds (window_seconds rl) - now) 1000000
               in (rl\<lparr>requests := (requests rl)(uid := user_requests)\<rparr>,
                   False, Some (TooManyRequestsMsg wait_seconds)))
         else (rl\<lparr>requests := (requests rl)(uid := user_requests @ [now])\<rparr>, True, None))"

text \<open>
  A sequence of \<open>is_allowed\<close> calls, each given as the calling user and the clock
  reading, run from left to right; the result is the limiter afterwards and the decision
  of each call.
\<close>

definition limiter_step ::
  "rate_limiter \<times> bool list \<Rightarrow> user_id \<times> datetime \<Rightarrow> rate_limiter \<times> bool list" where
  "limiter_step st call =
     (fst (is_allowed (fst st) (snd call) (fst call)),
      snd st @ [fst (snd (is_allowed (fst st) (snd call) (fst call)))])"

definition run_calls :: "rate_limiter \<Rightarrow> (user_id \<times> datetime) list \<Rightarrow> rate_limiter \<times> bool list" where
  "run_calls rl calls = foldl limiter_step (rl, []) calls"

text \<open>
  For stating properties: the number of earlier calls by \<open>uid\<close> that were allowed and lie
  within the window that ends at \<open>now\<close>.
\<close>

definition allowed_in_window ::
  "int \<Rightarrow> (user_id \<times> datetime) list \<Rightarrow> bool list \<Rightarrow> user_id \<Rightarrow> datetime \<Rightarrow> nat" where
  "allowed_in_window w calls decisions uid now =
     length (filter (\<lambda>q. snd q \<and> fst (fst q) = uid \<and> now - timedelta_seconds w < snd (fst q))
               (zip calls decisions))"

section \<open>The rate-limited poll command (src/handlers/poll\_handler.py)\<close>

text \<open>
  The \<open>/oylama\<close> handler as the sequence of calls it makes to its collaborators, in
  order. The validator \<open>PollRequest.parse_from_text\<close>, the service method
  \<open>VotingService.create_poll\<close> and the repositories are defined in other modules; what
  they answer is an input: whether the user is an admin, the result of parsing (the text
  of the \<open>ValueError\<close>, or the request), and whether creating the poll succeeds.
\<close>

record poll_request =
  request_minutes :: int
  request_topic :: string
  request_options :: "string list"

datatype handler_text =
    LimiterText "limiter_text option"
  | AdminsOnlyText
  | FormatErrorText string
  | CreateFailedText

datatype handler_call =
    PostEphemeralCall channel_id user_id handler_text
  | GetBySlackId user_id
  | UsersInfoCall user_id
  | ParseFromText string
  | CreatePollCall channel_id string "string list" user_id int

record handler_env =
  clock :: datetime
  admin :: bool
  parsed :: "string + poll_request"
  create_succeeds :: bool

definition poll_handler_command ::
  "rate_limiter \<Rightarrow> handler_env \<Rightarrow> user_id \<Rightarrow> channel_id \<Rightarrow> string
     \<Rightarrow> rate_limiter \<times> handler_call list" where
  "poll_handler_command rl e user channel raw_text =
     (let text = strip raw_text;
          (rl', allowed, error_msg) = is_allowed rl (clock e) user
      in if \<not> allowed then (rl', [PostEphemeralCall channel user (LimiterText error_msg)])
         else
           (rl',
            [GetBySlackId user, UsersInfoCall user] @
            (if \<not> admin e then [PostEphemeralCall channel user AdminsOnlyText]
             else
               ParseFromText text #
               (case parsed e of
                  Inl ve \<Rightarrow> [PostEphemeralCall channel user (FormatErrorText ve)]
                | Inr req \<Rightarrow>
                    CreatePollCall channel (request_topic req) (request_options req) user
                      (request_minutes req) #
                    (if create_succeeds e then []
                     else [PostEphemeralCall channel user CreateFailedText])))))"

text \<open>
  Example data: two calls by user \<open>U1\<close>, at 0 and at 10 seconds, and a handler
  environment whose clock reads 20 seconds.
\<close>

definition two_calls :: "(user_id \<times> datetime) list" where
  "two_calls = [(''U1'', 0), (''U1'', timedelta_seconds 10)]"

definition at_20_seconds :: handler_env where
  "at_20_seconds = \<lparr> clock = timedelta_seconds 20, admin = True,
                     parsed = Inl ''format'', create_succeeds = False \<rparr>"

section \<open>Properties of the matching service\<close>

lemma start_match_frame:
  "waiting_pool (fst (start_match s e a b)) = waiting_pool s"
  "pool_timeout_jobs (fst (start_match s e a b)) = pool_timeout_jobs s"
  "last_request_time (fst (start_match s e a b)) = last_request_time s"
  by (simp_all add: start_match_def Let_def split: option.split)

lemma start_match_repo:
  "match_repo (fst (start_match s e a b)) = match_repo s \<or>
   (\<exists>mid ch. match_repo (fst (start_match s e a b)) = match_repo s @
      [\<lparr> row_id = mid, row_channel_id = ch, user1_id = a, user2_id = b,
         row_status = Active, row_summary = None \<rparr>])"
  by (simp add: start_match_def Let_def split: option.split)

lemma can_request_True:
  "fst (can_request_coffee s now u) \<Longrightarrow> u \<notin> set (waiting_pool s)"
  by (auto simp: can_request_coffee_def Let_def split: option.splits if_splits)

lemma can_request_False:
  "\<not> fst (can_request_coffee s now u) \<Longrightarrow>
   snd (can_request_coffee s now u) = Some AlreadyWaitingMsg \<or>
   (\<exists>r. snd (can_request_coffee s now u) = Some (CooldownMsg r))"
  by (auto simp: can_request_coffee_def Let_def split: option.splits if_splits)

lemma request_rejected:
  "\<not> fst (can_request_coffee s (now_check e) u) \<Longrightarrow>
   request_coffee s e u ch = (s, Inr (snd (can_request_coffee s (now_check e) u)))"
  by (simp add: request_coffee_def case_prod_beta)

lemma request_waits:
  "fst (can_request_coffee s (now_check e) u) \<Longrightarrow> waiting_pool s = [] \<Longrightarrow>
   request_coffee s e u ch =
     (enter_pool (s\<lparr>last_request_time := (last_request_time s)(u \<mapsto> now_record e)\<rparr>) u,
      Inr (Some WaitingMsg))"
  by (simp add: request_coffee_def case_prod_beta)

lemma request_matches:
  "fst (can_request_coffee s (now_check e) u) \<Longrightarrow> waiting_pool s = p # rest \<Longrightarrow>
   fst (request_coffee s e u ch) =
     fst (start_match (cancel_partner_timeout
            (s\<lparr>last_request_time := (last_request_time s)(u \<mapsto> now_record e),
               waiting_pool := rest\<rparr>) p) e u p)"
  by (simp add: request_coffee_def case_prod_beta Let_def split: option.split)

lemma cancel_frame:
  "waiting_pool (cancel_partner_timeout s p) = waiting_pool s"
  "match_repo (cancel_partner_timeout s p) = match_repo s"
  "last_request_time (cancel_partner_timeout s p) = last_request_time s"
  by (simp_all add: cancel_partner_timeout_def split: option.split)

lemma enter_frame:
  "waiting_pool (enter_pool s u) = waiting_pool s @ [u]"
  "match_repo (enter_pool s u) = match_repo s"
  "pool_timeout_jobs (enter_pool s u) = (pool_timeout_jobs s)(u \<mapsto> ''coffee_timeout_'' @ u)"
  by (simp_all add: enter_pool_def Let_def)

lemma request_in_pool_rejected:
  assumes "u \<in> set (waiting_pool s)"
  shows "\<exists>m. request_coffee s e u ch = (s, Inr (Some m)) \<and>
             (m = AlreadyWaitingMsg \<or> (\<exists>r. m = CooldownMsg r))"
proof -
  have no: "\<not> fst (can_request_coffee s (now_check e) u)"
    using assms can_request_True by blast
  show ?thesis using request_rejected[OF no, of ch] can_request_False[OF no] by auto
qed

lemma request_pool:
  "waiting_pool (fst (request_coffee s e u ch)) =
     (if \<not> fst (can_request_coffee s (now_check e) u) then waiting_pool s
      else if waiting_pool s = [] then [u] else tl (waiting_pool s))"
proof (cases "fst (can_request_coffee s (now_check e) u)")
  case False
  then show ?thesis by (simp add: request_rejected)
next
  case True
  show ?thesis
  proof (cases "waiting_pool s")
    case Nil
    with True show ?thesis by (simp add: request_waits enter_frame)
  next
    case (Cons p rest)
    with True show ?thesis by (simp add: request_matches start_match_frame cancel_frame)
  qed
qed

lemma request_distinct:
  "distinct (waiting_pool s) \<Longrightarrow> distinct (waiting_pool (fst (request_coffee s e u ch)))"
  by (simp add: request_pool distinct_tl)

lemma request_repo:
  "match_repo (fst (request_coffee s e u ch)) = match_repo s \<or>
   (\<exists>mid c p rest. waiting_pool s = p # rest \<and> u \<notin> set (waiting_pool s) \<and>
      match_repo (fst (request_coffee s e u ch)) = match_repo s @
      [\<lparr> row_id = mid, row_channel_id = c, user1_id = u, user2_id = p,
         row_status = Active, row_summary = None \<rparr>])"
proof (cases "fst (can_request_coffee s (now_check e) u)")
  case False
  then show ?thesis by (simp add: request_rejected)
next
  case True
  then have nin: "u \<notin> set (waiting_pool s)" by (rule can_request_True)
  show ?thesis
  proof (cases "waiting_pool s")
    case Nil
    with True show ?thesis by (simp add: request_waits enter_frame)
  next
    case (Cons p rest)
    define s2 where "s2 = cancel_partner_timeout
            (s\<lparr>last_request_time := (last_request_time s)(u \<mapsto> now_record e),
               waiting_pool := rest\<rparr>) p"
    have repo2: "match_repo s2 = match_repo s" by (simp add: s2_def cancel_frame)
    have eq: "fst (request_coffee s e u ch) = fst (start_match s2 e u p)"
      using request_matches[OF True Cons] by (simp add: s2_def)
    show ?thesis using start_match_repo[of s2 e u p] nin Cons unfolding eq repo2 by auto
  qed
qed

lemma request_pairs:
  assumes "pairs_inv s"
  shows "pairs_inv (fst (request_coffee s e u ch))"
  using request_repo[of s e u ch] assms
  by (auto simp: pairs_inv_def)

lemma timeout_pool:
  "waiting_pool (timeout_user s e u) = remove1 u (waiting_pool s)"
  by (simp add: timeout_user_def Let_def remove1_idem split: option.split)

lemma timeout_repo: "match_repo (timeout_user s e u) = match_repo s"
  by (simp add: timeout_user_def Let_def split: option.split)

lemma repo_update_users:
  "list_all (\<lambda>r. user1_id r \<noteq> user2_id r) (repo_update rows mid summ)
     = list_all (\<lambda>r. user1_id r \<noteq> user2_id r) rows"
  by (induction rows) (simp_all add: repo_update_def)

lemma report_frame:
  "waiting_pool (report_and_close s e ch mid summ) = waiting_pool s"
  "pool_timeout_jobs (report_and_close s e ch mid summ) = pool_timeout_jobs s"
  "match_repo (report_and_close s e ch mid summ) = match_repo s"
  by (auto simp: report_and_close_def Let_def split: option.split)

lemma close_pool: "waiting_pool (close_match s e ch mid) = waiting_pool s"
  by (auto simp: close_match_def Let_def report_frame split: option.split)

lemma close_handles: "pool_timeout_jobs (close_match s e ch mid) = pool_timeout_jobs s"
  by (auto simp: close_match_def Let_def report_frame split: option.split)

lemma close_repo:
  "match_repo (close_match s e ch mid) = match_repo s \<or>
   (\<exists>summ. match_repo (close_match s e ch mid) = repo_update (match_repo s) mid summ)"
  by (auto simp: close_match_def Let_def report_frame split: option.split)

lemma close_pairs: "pairs_inv s \<Longrightarrow> pairs_inv (close_match s e ch mid)"
  using close_repo[of s e ch mid] by (auto simp: pairs_inv_def repo_update_users)

lemma step_inv:
  assumes "distinct (waiting_pool s)" "pairs_inv s"
  shows "distinct (waiting_pool (step s ev)) \<and> pairs_inv (step s ev)"
proof (cases ev)
  case (Request u ch e)
  then show ?thesis using assms by (simp add: request_distinct request_pairs)
next
  case (Expire u e)
  then show ?thesis using assms by (simp add: timeout_pool pairs_inv_def timeout_repo)
next
  case (Close ch mid e)
  then show ?thesis using assms by (simp add: close_pool close_pairs)
qed

lemma run_inv:
  "distinct (waiting_pool s) \<Longrightarrow> pairs_inv s \<Longrightarrow>
   distinct (waiting_pool (run s evs)) \<and> pairs_inv (run s evs)"
  unfolding run_def
proof (induction evs arbitrary: s)
  case Nil
  then show ?case by simp
next
  case (Cons ev evs)
  then show ?case using step_inv[of s ev] by simp
qed

lemma cancel_handles:
  "pool_timeout_jobs (cancel_partner_timeout s p) = (pool_timeout_jobs s)(p := None)"
  by (auto simp: cancel_partner_timeout_def split: option.split)

lemma cancel_cron:
  "pool_timeout_jobs s p = Some j \<Longrightarrow> cron (cancel_partner_timeout s p) = (cron s)(j := None)"
  by (simp add: cancel_partner_timeout_def)

lemma start_match_timeout_job:
  "cron s (''coffee_timeout_'' @ u) = None \<Longrightarrow>
   cron (fst (start_match s e a b)) (''coffee_timeout_'' @ u) = None"
  by (simp add: start_match_def Let_def split: option.split)

lemma start_match_created:
  "conv_open e = Some g \<Longrightarrow> repo_create e = Some mid \<Longrightarrow>
   match_repo (fst (start_match s e a b)) = match_repo s @
      [\<lparr> row_id = mid, row_channel_id = g, user1_id = a, user2_id = b,
         row_status = Active, row_summary = None \<rparr>]"
  by (simp add: start_match_def Let_def split: option.split)

lemma start_match_fails:
  "conv_open e = None \<or> repo_create e = None \<Longrightarrow>
   start_match s e a b =
     (s, Some (CemilBotError (if conv_open e = None then OpenConversation else RepoCreate)))"
  by (auto simp: start_match_def split: option.split)

lemma timeout_noop:
  "u \<notin> set (waiting_pool s) \<Longrightarrow> pool_timeout_jobs s u = None \<Longrightarrow> timeout_user s te u = s"
  by (simp add: timeout_user_def dom_def)

lemma timeout_handles:
  "pool_timeout_jobs (timeout_user s e u) = (pool_timeout_jobs s)(u := None)"
  by (auto simp: timeout_user_def Let_def dom_def split: option.split)

lemma request_handles:
  "pool_timeout_jobs (fst (request_coffee s e u ch)) =
     (if \<not> fst (can_request_coffee s (now_check e) u) then pool_timeout_jobs s
      else if waiting_pool s = [] then (pool_timeout_jobs s)(u \<mapsto> ''coffee_timeout_'' @ u)
      else (pool_timeout_jobs s)(hd (waiting_pool s) := None))"
proof (cases "fst (can_request_coffee s (now_check e) u)")
  case False
  then show ?thesis by (simp add: request_rejected)
next
  case True
  show ?thesis
  proof (cases "waiting_pool s")
    case Nil
    with True show ?thesis by (simp add: request_waits enter_frame)
  next
    case (Cons p rest)
    with True show ?thesis
      by (simp add: request_matches start_match_frame cancel_handles)
  qed
qed

lemma init_pool_inv: "pool_inv (init_service adm)"
  by (simp add: pool_inv_def init_service_def)

lemma request_pool_inv:
  assumes "pool_inv s"
  shows "pool_inv (fst (request_coffee s e u ch))"
proof (cases "waiting_pool s")
  case Nil
  then show ?thesis using assms
    by (simp add: pool_inv_def request_pool request_handles)
next
  case (Cons p rest)
  then have "p \<notin> set rest" "distinct rest"
    and "list_all (\<lambda>v. pool_timeout_jobs s v = Some (''coffee_timeout_'' @ v)) rest"
    using assms by (simp_all add: pool_inv_def)
  moreover from this have
    "list_all (\<lambda>v. ((pool_timeout_jobs s)(p := None)) v = Some (''coffee_timeout_'' @ v)) rest"
    by (auto simp: list_all_iff)
  ultimately show ?thesis using assms Cons
    by (simp add: pool_inv_def request_pool request_handles)
qed

lemma timeout_pool_inv:
  assumes "pool_inv s"
  shows "pool_inv (timeout_user s e u)"
  using assms
  by (auto simp: pool_inv_def timeout_pool timeout_handles list_all_iff)

lemma step_pool_inv: "pool_inv s \<Longrightarrow> pool_inv (step s ev)"
  by (cases ev) (simp_all add: request_pool_inv timeout_pool_inv, simp add: pool_inv_def close_pool close_handles)

lemma run_pool_inv: "pool_inv s \<Longrightarrow> pool_inv (run s evs)"
  unfolding run_def by (induction evs arbitrary: s) (simp_all add: step_pool_inv)

lemma first_request_waits:
  "request_coffee (init_service adm) (clock_env t) u ch =
     (enter_pool ((init_service adm)\<lparr>last_request_time := [u \<mapsto> t]\<rparr>) u, Inr (Some WaitingMsg))"
proof -
  have "fst (can_request_coffee (init_service adm) (now_check (clock_env t)) u)"
    by (simp add: can_request_coffee_def init_service_def)
  from request_waits[OF this, of ch] show ?thesis
    by (simp add: init_service_def clock_env_def)
qed

lemma not_in_cooldown:
  assumes "last_request_time s b = None \<or>
           (\<exists>t. last_request_time s b = Some t \<and> timedelta_minutes 5 \<le> now - t)"
      and "b \<notin> set (waiting_pool s)"
  shows "fst (can_request_coffee s now b)"
  using assms by (auto simp: can_request_coffee_def)

lemma one_waiting_eq:
  "one_waiting = enter_pool ((init_service None)\<lparr>last_request_time := [''A'' \<mapsto> 0]\<rparr>) ''A''"
  by (simp add: one_waiting_def first_request_waits)

lemma one_waiting_fields:
  "waiting_pool one_waiting = [''A'']"
  "pool_timeout_jobs one_waiting = [''A'' \<mapsto> ''coffee_timeout_A'']"
  "cron one_waiting = [''coffee_timeout_A'' \<mapsto> TimeoutUser ''A'']"
  "last_request_time one_waiting = [''A'' \<mapsto> 0]"
  "match_repo one_waiting = []"
  by (simp_all add: one_waiting_eq enter_pool_def Let_def init_service_def)

lemma one_waiting_reachable:
  "one_waiting = run (init_service None) [Request ''A'' ''C1'' (clock_env 0)]"
  by (simp add: run_def one_waiting_def)

lemma init_pairs_inv: "pairs_inv (init_service adm)"
  by (simp add: pairs_inv_def init_service_def)

lemma matched_fields:
  "waiting_pool (fst (request_coffee one_waiting match_env ''B'' ''C1'')) = []"
  "match_repo (fst (request_coffee one_waiting match_env ''B'' ''C1'')) =
        [\<lparr> row_id = ''m1'', row_channel_id = ''G1'', user1_id = ''B'', user2_id = ''A'',
           row_status = Active, row_summary = None \<rparr>]"
proof -
  have can: "fst (can_request_coffee one_waiting (now_check match_env) ''B'')"
    by (rule not_in_cooldown) (simp_all add: one_waiting_fields)
  have pool: "waiting_pool one_waiting = [''A'']" by (simp add: one_waiting_fields)
  note eq = request_matches[OF can pool, of "''C1''"]
  show "waiting_pool (fst (request_coffee one_waiting match_env ''B'' ''C1'')) = []"
    by (simp add: eq start_match_frame cancel_frame)
  have ext: "conv_open match_env = Some ''G1''" "repo_create match_env = Some ''m1''"
    by (simp_all add: match_env_def)
  show "match_repo (fst (request_coffee one_waiting match_env ''B'' ''C1'')) =
        [\<lparr> row_id = ''m1'', row_channel_id = ''G1'', user1_id = ''B'', user2_id = ''A'',
           row_status = Active, row_summary = None \<rparr>]"
    by (simp add: eq start_match_created[OF ext] cancel_frame one_waiting_fields)
qed

lemma request_match_fails:
  assumes "waiting_pool s = a # rest" "fst (can_request_coffee s (now_check e) b)"
      and fails: "conv_open e = None \<or> repo_create e = None"
  shows "request_coffee s e b ch =
      (cancel_partner_timeout
         (s\<lparr>last_request_time := (last_request_time s)(b \<mapsto> now_record e),
            waiting_pool := rest\<rparr>) a,
       Inl (CemilBotError (if conv_open e = None then OpenConversation else RepoCreate)))"
  using assms(1,2)
  by (simp add: request_coffee_def case_prod_beta Let_def start_match_fails[OF fails])

lemma cancel_chat: "chat (cancel_partner_timeout t p) = chat t"
  by (simp add: cancel_partner_timeout_def split: option.split)

lemma repo_get_update:
  "repo_get rows mid = Some r \<Longrightarrow>
   repo_get (repo_update rows mid summ) mid = Some (r\<lparr>row_status := Closed, row_summary := Some summ\<rparr>)"
  unfolding repo_get_def repo_update_def by (induction rows) (auto split: if_splits)

lemma repo_update_closed:
  "list_all (\<lambda>r. row_id r = mid \<longrightarrow> row_status r = Closed) (repo_update rows mid summ)"
  unfolding repo_update_def by (induction rows) auto

lemma close_match_done:
  assumes "history e = Some msgs" "summary_for e msgs = Some summ"
      and "update_ok e" "admin_post_ok e" "closing_post_ok e"
      and "admin_target s = Some adm"
      and "repo_get (match_repo s) mid = Some r"
  shows "close_match s e ch mid =
     s\<lparr>match_repo := repo_update (match_repo s) mid summ,
       chat := chat s @ [(adm, AdminReport ch (user1_id r) (user2_id r) summ),
                         (ch, ClosingNotice)],
       closed_conversations := closed_conversations s @ (if conv_close_ok e then [ch] else [])\<rparr>"
proof -
  have at: "admin_target (s\<lparr>match_repo := repo_update (match_repo s) mid summ\<rparr>) = Some adm"
    using assms(6) by (auto simp: admin_target_def split: if_splits)
  show ?thesis
    using assms(1-5) at repo_get_update[OF assms(7), of summ]
    by (simp add: close_match_def report_and_close_def Let_def)
qed

lemma close_match_twice:
  assumes "history e = Some msgs" "summary_for e msgs = Some summ"
      and "update_ok e" "admin_post_ok e" "closing_post_ok e"
      and "admin_target s = Some adm"
      and "repo_get (match_repo s) mid = Some r"
  shows "repo_get (match_repo (close_match s e ch mid)) mid
           = Some (r\<lparr>row_status := Closed, row_summary := Some summ\<rparr>)"
    and "repo_get (match_repo (close_match (close_match s e ch mid) e ch mid)) mid
           = Some (r\<lparr>row_status := Closed, row_summary := Some summ\<rparr>)"
    and "chat (close_match (close_match s e ch mid) e ch mid)
           = chat s @ [(adm, AdminReport ch (user1_id r) (user2_id r) summ), (ch, ClosingNotice),
                       (adm, AdminReport ch (user1_id r) (user2_id r) summ), (ch, ClosingNotice)]"
proof -
  define s1 where "s1 = close_match s e ch mid"
  note first = close_match_done[OF assms, of ch]
  have g1: "repo_get (match_repo s1) mid = Some (r\<lparr>row_status := Closed, row_summary := Some summ\<rparr>)"
    by (simp add: s1_def first repo_get_update[OF assms(7)])
  have a1: "admin_target s1 = Some adm"
    using assms(6) by (auto simp: s1_def first admin_target_def split: if_splits)
  note second = close_match_done[OF assms(1-5) a1 g1, of ch]
  show "repo_get (match_repo (close_match s e ch mid)) mid
           = Some (r\<lparr>row_status := Closed, row_summary := Some summ\<rparr>)"
    using g1 by (simp add: s1_def)
  show "repo_get (match_repo (close_match (close_match s e ch mid) e ch mid)) mid
           = Some (r\<lparr>row_status := Closed, row_summary := Some summ\<rparr>)"
    unfolding s1_def[symmetric] second using repo_get_update[OF g1, of summ] by simp
  show "chat (close_match (close_match s e ch mid) e ch mid)
           = chat s @ [(adm, AdminReport ch (user1_id r) (user2_id r) summ), (ch, ClosingNotice),
                       (adm, AdminReport ch (user1_id r) (user2_id r) summ), (ch, ClosingNotice)]"
    unfolding s1_def[symmetric] second by (simp add: s1_def first)
qed

lemma one_match_facts:
  "history quiet_close = Some []" "summary_for quiet_close [] = Some NoConversationSummary"
  "update_ok quiet_close" "admin_post_ok quiet_close" "closing_post_ok quiet_close"
  "admin_target one_match = Some ''ADMIN''"
  "repo_get (match_repo one_match) ''m1'' =
     Some \<lparr> row_id = ''m1'', row_channel_id = ''G1'', user1_id = ''B'',
            user2_id = ''A'', row_status = Active, row_summary = None \<rparr>"
  "chat one_match = []"
  by (simp_all add: quiet_close_def summary_for_def user_messages_def one_match_def
        admin_target_def truthy_def init_service_def repo_get_def)

section \<open>Properties of the poll store and of the tally\<close>

lemma results_get:
  "(case get_poll_results True d pid (int i) of None \<Rightarrow> 0 | Some c \<Rightarrow> int c) = stored_votes d pid i"
  by (simp add: get_poll_results_def stored_votes_def Let_def)

lemma tally_inv:
  fixes results :: "int \<rightharpoonup> nat"
  defines "cnt \<equiv> \<lambda>i. (case results (int i) of None \<Rightarrow> 0 | Some c \<Rightarrow> int c)"
  assumes "\<forall>c \<in> snd ` set lines. c \<le> m"
      and "0 < m \<longrightarrow> ws = map fst (filter (\<lambda>p. snd p = m) lines)"
      and "m = - 1 \<or> m \<in> snd ` set lines"
  shows "\<exists>m' ws'. tally results i opts (lines, m, ws)
             = (lines @ zip opts (map cnt [i..<i + length opts]), m', ws')
         \<and> (\<forall>c \<in> snd ` set (lines @ zip opts (map cnt [i..<i + length opts])). c \<le> m')
         \<and> (0 < m' \<longrightarrow> ws' = map fst (filter (\<lambda>p. snd p = m')
                                 (lines @ zip opts (map cnt [i..<i + length opts]))))
         \<and> (m' = - 1 \<or> m' \<in> snd ` set (lines @ zip opts (map cnt [i..<i + length opts])))"
  using assms(2-)
proof (induction opts arbitrary: i lines m ws)
  case Nil
  then show ?case by simp
next
  case (Cons opt opts)
  have up: "[i..<i + length (opt # opts)] = i # [Suc i..<Suc i + length opts]"
    by (simp add: upt_conv_Cons del: upt_Suc)
  have zip: "lines @ zip (opt # opts) (map cnt [i..<i + length (opt # opts)])
             = (lines @ [(opt, cnt i)]) @ zip opts (map cnt [Suc i..<Suc i + length opts])"
    unfolding up by simp
  consider (gt) "cnt i > m" | (eq) "cnt i = m" "cnt i > 0" | (other) "\<not> cnt i > m" "\<not> (cnt i = m \<and> cnt i > 0)"
    by blast
  then show ?case
  proof cases
    case gt
    have a: "\<forall>c \<in> snd ` set (lines @ [(opt, cnt i)]). c \<le> cnt i"
      using Cons.prems(1) gt by auto
    have "filter (\<lambda>p. snd p = cnt i) lines = []"
      using Cons.prems(1) gt by (auto simp: filter_empty_conv)
    then have b: "0 < cnt i \<longrightarrow> [opt] = map fst (filter (\<lambda>p. snd p = cnt i) (lines @ [(opt, cnt i)]))"
      by simp
    have c: "cnt i = - 1 \<or> cnt i \<in> snd ` set (lines @ [(opt, cnt i)])" by simp
    have step: "tally results i (opt # opts) (lines, m, ws)
                  = tally results (Suc i) opts (lines @ [(opt, cnt i)], cnt i, [opt])"
      using gt by (simp add: cnt_def Let_def)
    from Cons.IH[OF a b c, of "Suc i"] show ?thesis
      unfolding zip step .
  next
    case eq
    have a: "\<forall>c \<in> snd ` set (lines @ [(opt, cnt i)]). c \<le> m"
      using Cons.prems(1) eq by auto
    have b: "0 < m \<longrightarrow> ws @ [opt] = map fst (filter (\<lambda>p. snd p = m) (lines @ [(opt, cnt i)]))"
      using Cons.prems(2) eq by simp
    have c: "m = - 1 \<or> m \<in> snd ` set (lines @ [(opt, cnt i)])"
      using Cons.prems(3) by auto
    have step: "tally results i (opt # opts) (lines, m, ws)
                  = tally results (Suc i) opts (lines @ [(opt, cnt i)], m, ws @ [opt])"
      using eq by (simp add: cnt_def Let_def)
    from Cons.IH[OF a b c, of "Suc i"] show ?thesis
      unfolding zip step .
  next
    case other
    have a: "\<forall>c \<in> snd ` set (lines @ [(opt, cnt i)]). c \<le> m"
      using Cons.prems(1) other by auto
    have b: "0 < m \<longrightarrow> ws = map fst (filter (\<lambda>p. snd p = m) (lines @ [(opt, cnt i)]))"
      using Cons.prems(2) other by auto
    have c: "m = - 1 \<or> m \<in> snd ` set (lines @ [(opt, cnt i)])"
      using Cons.prems(3) by auto
    have step: "tally results i (opt # opts) (lines, m, ws)
                  = tally results (Suc i) opts (lines @ [(opt, cnt i)], m, ws)"
      using other by (auto simp: cnt_def Let_def)
    from Cons.IH[OF a b c, of "Suc i"] show ?thesis
      unfolding zip step .
  qed
qed

lemma result_message_correct:
  "result_message (get_poll_results True d pid) tp opts =
     PollResult tp (zip opts (option_counts d pid (length opts)))
       (if \<exists>c \<in> set (option_counts d pid (length opts)). 0 < c
        then Winners (map fst (filter (\<lambda>p. snd p = Max (set (option_counts d pid (length opts))))
                                 (zip opts (option_counts d pid (length opts)))))
        else NoVotesCast)"
proof -
  define results where "results = get_poll_results True d pid"
  define cs where "cs = option_counts d pid (length opts)"
  have cs: "map (\<lambda>i. case results (int i) of None \<Rightarrow> 0 | Some c \<Rightarrow> int c) [0..<0 + length opts] = cs"
    by (simp add: cs_def option_counts_def results_def results_get)
  have len: "length cs = length opts" by (simp add: cs_def option_counts_def)
  have nonneg: "\<forall>c \<in> set cs. 0 \<le> c"
    by (auto simp: cs_def option_counts_def stored_votes_def)
  have snd_zip: "snd ` set (zip opts cs) = set cs" "map snd (zip opts cs) = cs"
    using len by (simp_all add: map_snd_zip flip: set_map)
  have "\<exists>m' ws'. tally results 0 opts ([], - 1, []) = (zip opts cs, m', ws')
          \<and> (\<forall>c \<in> set cs. c \<le> m')
          \<and> (0 < m' \<longrightarrow> ws' = map fst (filter (\<lambda>p. snd p = m') (zip opts cs)))
          \<and> (m' = - 1 \<or> m' \<in> set cs)"
    using tally_inv[of "[]" "- 1" "[]" results 0 opts]
    unfolding cs append_Nil snd_zip by simp
  then obtain m' ws' where t: "tally results 0 opts ([], - 1, []) = (zip opts cs, m', ws')"
    and ub: "\<forall>c \<in> set cs. c \<le> m'"
    and w: "0 < m' \<longrightarrow> ws' = map fst (filter (\<lambda>p. snd p = m') (zip opts cs))"
    and mem: "m' = - 1 \<or> m' \<in> set cs"
    by blast
  show ?thesis
  proof (cases "\<exists>c \<in> set cs. 0 < c")
    case True
    then have pos: "0 < m'" using ub by force
    then have "m' \<in> set cs" using mem by auto
    then have "Max (set cs) = m'" using ub by (intro Max_eqI) auto
    then show ?thesis
      using True pos w t
      by (simp add: result_message_def results_def[symmetric] cs_def[symmetric])
  next
    case False
    then have "\<not> 0 < m'" using mem by auto
    then show ?thesis
      using False t
      by (simp add: result_message_def results_def[symmetric] cs_def[symmetric])
  qed
qed

lemma close_poll_task_open:
  assumes "get_poll_by_ts (lookup_ok e) (database w) ts = Some poll" "is_active poll"
  shows "close_poll_task w e ts =
     (w\<lparr>database := fst (close_poll (close_ok e) (database w) (poll_id poll)),
        slack := slack w
          @ (if delete_ok e then [DeleteMessage (poll_channel_id poll) ts] else [])
          @ (if post_result_ok e
             then [PostMessage (poll_channel_id poll)
                     (result_message (get_poll_results (results_ok e) (database w) (poll_id poll))
                        (topic poll) (options poll))]
             else [])\<rparr>)"
  using assms by (simp add: close_poll_task_def Let_def)

lemma no_votes_counts:
  assumes "filter (\<lambda>v. vote_poll_id v = pid) (votes d) = []"
  shows "option_counts d pid n = replicate n 0"
proof -
  have "\<And>i. filter (\<lambda>v. vote_poll_id v = pid \<and> option_index v = int i) (votes d) = []"
    using assms by (auto simp: filter_empty_conv)
  then have "stored_votes d pid = (\<lambda>i. 0)"
    by (intro ext) (simp add: stored_votes_def)
  then show ?thesis
    by (simp add: option_counts_def map_replicate_const)
qed

lemma lunch_result_2_1:
  "result_message (get_poll_results True (database (lunch_bot [vote ''A'' 0, vote ''B'' 0, vote ''C'' 1]))
       (poll_id lunch_poll)) (topic lunch_poll) (options lunch_poll)
   = PollResult ''Lunch'' [(''Kebap'', 2), (''Pizza'', 1)] (Winners [''Kebap''])"
  by (simp add: result_message_def get_poll_results_def lunch_bot_def lunch_poll_def vote_def Let_def)

lemma lunch_result_1_1:
  "result_message (get_poll_results True (database (lunch_bot [vote ''A'' 0, vote ''B'' 1]))
       (poll_id lunch_poll)) (topic lunch_poll) (options lunch_poll)
   = PollResult ''Lunch'' [(''Kebap'', 1), (''Pizza'', 1)] (Winners [''Kebap'', ''Pizza''])"
  by (simp add: result_message_def get_poll_results_def lunch_bot_def lunch_poll_def vote_def Let_def)

lemma lunch_result_0_0:
  "result_message (get_poll_results True (database (lunch_bot [])) (poll_id lunch_poll))
       (topic lunch_poll) (options lunch_poll)
   = PollResult ''Lunch'' [(''Kebap'', 0), (''Pizza'', 0)] NoVotesCast"
  by (simp add: result_message_def get_poll_results_def lunch_bot_def lunch_poll_def Let_def)

lemma lunch_close:
  "slack (close_poll_task (lunch_bot vs) close_all_ok ''100.1'')
     = [DeleteMessage ''C1'' ''100.1'',
        PostMessage ''C1'' (result_message (get_poll_results True (database (lunch_bot vs))
                               (poll_id lunch_poll)) (topic lunch_poll) (options lunch_poll))]"
proof -
  have look: "get_poll_by_ts (lookup_ok close_all_ok) (database (lunch_bot vs)) ''100.1'' = Some lunch_poll"
    by (simp add: close_all_ok_def get_poll_by_ts_def lunch_bot_def lunch_poll_def)
  have act: "is_active lunch_poll" by (simp add: lunch_poll_def)
  have env: "delete_ok close_all_ok" "post_result_ok close_all_ok" "results_ok close_all_ok"
    by (simp_all add: close_all_ok_def)
  have ch: "poll_channel_id lunch_poll = ''C1''" by (simp add: lunch_poll_def)
  have sl: "slack (lunch_bot vs) = []" by (simp add: lunch_bot_def)
  show ?thesis
    unfolding close_poll_task_open[OF look act] by (simp add: env ch sl)
qed

lemma find_close:
  "find (\<lambda>p. message_ts p = ts) ps = Some poll \<Longrightarrow>
   find (\<lambda>p. message_ts p = ts)
     (map (\<lambda>p. if poll_id p = poll_id poll then p\<lparr>is_active := False\<rparr> else p) ps)
   = Some (poll\<lparr>is_active := False\<rparr>)"
  by (induction ps) (auto split: if_splits)

lemma close_poll_task_closed:
  assumes "get_poll_by_ts (lookup_ok e) (database w) ts = Some poll" "\<not> is_active poll"
  shows "close_poll_task w e ts = w"
  using assms by (simp add: close_poll_task_def)

lemma close_poll_task_absent:
  assumes "get_poll_by_ts (lookup_ok e) (database w) ts = None"
  shows "close_poll_task w e ts = w"
  using assms by (simp add: close_poll_task_def)

lemma lookup_after_close:
  assumes "get_poll_by_ts True (database w) ts = Some poll" "is_active poll"
    "lookup_ok e" "close_ok e"
  shows "get_poll_by_ts True (database (close_poll_task w e ts)) ts = Some (poll\<lparr>is_active := False\<rparr>)"
proof -
  have look: "get_poll_by_ts (lookup_ok e) (database w) ts = Some poll"
    using assms by simp
  show ?thesis
    using assms(1,4)
    by (simp add: close_poll_task_open[OF look assms(2)] close_poll_def get_poll_by_ts_def find_close)
qed

lemma close_poll_twice:
  assumes "get_poll_by_ts True (database w) ts = Some poll" "is_active poll"
    "lookup_ok e1" "close_ok e1"
  shows "close_poll_task (close_poll_task w e1 ts) e2 ts = close_poll_task w e1 ts"
proof (cases "lookup_ok e2")
  case True
  have "get_poll_by_ts (lookup_ok e2) (database (close_poll_task w e1 ts)) ts
          = Some (poll\<lparr>is_active := False\<rparr>)"
    using lookup_after_close[OF assms] True by simp
  then show ?thesis by (rule close_poll_task_closed) simp
next
  case False
  then have "get_poll_by_ts (lookup_ok e2) (database (close_poll_task w e1 ts)) ts = None"
    by (simp add: get_poll_by_ts_def)
  then show ?thesis by (rule close_poll_task_absent)
qed

lemmas parse_eval = parse_poll_text_def split_maxsplit1_def is_space_def Let_def py_int_def
  int_strip_def is_int_space_def
  strip_def digits_value_def is_digit_def digit_val_def

lemma parse_zero_minutes: "parse_poll_text (strip ''0 Lunch | A | B'') = Some (0, ''Lunch'', [''A'', ''B''])"
  by (simp add: parse_eval)

lemma parse_long_poll: "parse_poll_text (strip ''1441 Lunch | A | B'') = Some (1441, ''Lunch'', [''A'', ''B''])"
  by (simp add: parse_eval)

lemma parse_eleven:
  "parse_poll_text (strip ''10 Snack|tea|cay|kahve|su|simit|kek|elma|muz|corba|pide|ayran'')
     = Some (10, ''Snack'', [''tea'', ''cay'', ''kahve'', ''su'', ''simit'', ''kek'', ''elma'', ''muz'',
                             ''corba'', ''pide'', ''ayran''])"
  by (simp add: parse_eval)

lemma parse_one_option: "parse_poll_text (strip ''10 Lunch | A'') = None"
  by (simp add: parse_eval)

lemma admin_poll_created:
  assumes "parse_poll_text (strip raw) = Some (mins, tp, opts)" "0 \<le> mins" "mins \<le> 100000"
  shows "handle_poll_command fresh_bot admin_env ''ADM'' ''C1'' raw =
     \<lparr> database = \<lparr> polls = [\<lparr> poll_id = 1, poll_channel_id = ''C1'', message_ts = ''200.2'',
                                 creator_id = ''ADM'', topic = tp, options = opts,
                                 end_time = 63800000000000000 + timedelta_minutes mins,
                                 is_active = True \<rparr>],
                    votes = [] \<rparr>,
       global_scheduler = Some [(''close_200.2'', ''200.2'', 63800000000000000 + timedelta_minutes mins)],
       slack = [PostMessage ''C1'' (NewPoll tp mins ''ADM'' opts)] \<rparr>"
proof -
  have t: "now_plus_minutes 63800000000000000 mins = Some (63800000000000000 + timedelta_minutes mins)"
    using assms(2,3)
    by (simp add: now_plus_minutes_def timedelta_ok_def datetime_max_def timedelta_minutes_def)
  have d: "(63800000000000000 + timedelta_minutes mins) div 1000000 * 1000000
             = 63800000000000000 + timedelta_minutes mins"
    by (simp add: timedelta_minutes_def)
  show ?thesis
    using assms(1) t d
    by (simp add: handle_poll_command_def admin_env_def is_admin_def fresh_bot_def
          create_poll_def next_poll_id_def schedule_poll_close_def)
qed

lemma add_vote_key:
  "sqlite_integer i \<Longrightarrow>
   filter (\<lambda>v. vote_poll_id v = pid \<and> vote_user_id v = u) (votes (fst (add_vote True d pid u i)))
     = [\<lparr> vote_poll_id = pid, vote_user_id = u, option_index = i \<rparr>]"
  by (simp add: add_vote_def)

lemma add_vote_others:
  "filter (\<lambda>v. \<not> (vote_poll_id v = pid \<and> vote_user_id v = u)) (votes (fst (add_vote ok d pid u i)))
     = filter (\<lambda>v. \<not> (vote_poll_id v = pid \<and> vote_user_id v = u)) (votes d)"
  by (simp add: add_vote_def)

lemma add_vote_polls: "polls (fst (add_vote ok d pid u i)) = polls d"
  by (simp add: add_vote_def)

lemma add_vote_fresh:
  assumes "\<not> has_user_voted True d pid u" "sqlite_integer i"
  shows "votes (fst (add_vote True d pid u i))
           = votes d @ [\<lparr> vote_poll_id = pid, vote_user_id = u, option_index = i \<rparr>]"
proof -
  have "filter (\<lambda>v. \<not> (vote_poll_id v = pid \<and> vote_user_id v = u)) (votes d) = votes d"
    using assms(1) by (auto simp: has_user_voted_def list_ex_iff filter_id_conv)
  then show ?thesis using assms(2) by (simp add: add_vote_def)
qed

lemma add_vote_overflow:
  "\<not> sqlite_integer i \<Longrightarrow> add_vote ok d pid u i = (d, False)"
  by (simp add: add_vote_def)

lemma has_voted_after_add:
  "sqlite_integer i \<Longrightarrow> has_user_voted True (fst (add_vote True d pid u i)) pid u"
  by (simp add: has_user_voted_def add_vote_def)

lemma py_index_valid:
  "0 \<le> i \<Longrightarrow> i < int (length xs) \<Longrightarrow> py_index xs i = Some (xs ! nat i)"
  by (simp add: py_index_def)

lemma first_vote:
  assumes "py_int v = Some i"
      and "get_poll_by_ts True (database w) ts = Some poll" "is_active poll"
      and "\<not> has_user_voted True (database w) (poll_id poll) u"
      and "sqlite_integer i"
  shows "handle_vote_action w votes_ok u ch ts v =
     (case py_index (options poll) i of
        None \<Rightarrow> (w\<lparr>database := fst (add_vote True (database w) (poll_id poll) u i)\<rparr>, Some IndexError)
      | Some label \<Rightarrow>
          (w\<lparr>database := fst (add_vote True (database w) (poll_id poll) u i),
             slack := slack w @ [PostEphemeral ch u (VoteRecordedMsg label)]\<rparr>, None))"
  using assms
  by (simp add: handle_vote_action_def votes_ok_def post_ephemeral_def case_prod_beta add_vote_def
        split: option.split)

lemma overflowing_vote:
  assumes "py_int v = Some i"
      and "get_poll_by_ts True (database w) ts = Some poll" "is_active poll"
      and "\<not> has_user_voted True (database w) (poll_id poll) u"
      and "\<not> sqlite_integer i"
  shows "handle_vote_action w votes_ok u ch ts v =
           (w\<lparr>slack := slack w @ [PostEphemeral ch u VoteFailedMsg]\<rparr>, None)"
  using assms
  by (simp add: handle_vote_action_def votes_ok_def post_ephemeral_def case_prod_beta add_vote_def)

lemma second_vote:
  assumes "py_int v = Some j"
      and "get_poll_by_ts True (database w) ts = Some poll" "is_active poll"
      and "has_user_voted True (database w) (poll_id poll) u"
  shows "handle_vote_action w votes_ok u ch ts v =
           (w\<lparr>slack := slack w @ [PostEphemeral ch u AlreadyVotedMsg]\<rparr>, None)"
  using assms
  by (simp add: handle_vote_action_def votes_ok_def post_ephemeral_def)

lemma lookup_database_votes:
  "get_poll_by_ts ok (d\<lparr>votes := vs\<rparr>) ts = get_poll_by_ts ok d ts"
  by (simp add: get_poll_by_ts_def)

lemma lookup_after_add:
  "get_poll_by_ts ok (fst (add_vote ok' d pid u i)) ts = get_poll_by_ts ok d ts"
  by (simp add: get_poll_by_ts_def add_vote_polls)

section \<open>Properties of the rate limiter\<close>

lemma is_allowed_decision:
  "fst (snd (is_allowed rl now u)) \<longleftrightarrow>
     int (length (filter (\<lambda>t. now - timedelta_seconds (window_seconds rl) < t) (requests rl u)))
       < max_requests rl"
  by (auto simp: is_allowed_def Let_def)

lemma is_allowed_requests:
  "requests (fst (is_allowed rl now u)) =
     (requests rl)(u := filter (\<lambda>t. now - timedelta_seconds (window_seconds rl) < t) (requests rl u)
                        @ (if fst (snd (is_allowed rl now u)) then [now] else []))"
  by (simp add: is_allowed_def Let_def)

lemma is_allowed_config:
  "max_requests (fst (is_allowed rl now u)) = max_requests rl"
  "window_seconds (fst (is_allowed rl now u)) = window_seconds rl"
  by (simp_all add: is_allowed_def Let_def)

lemma is_allowed_text:
  "snd (snd (is_allowed rl now u)) = None \<longleftrightarrow> fst (snd (is_allowed rl now u))"
  by (simp add: is_allowed_def Let_def)

lemma run_calls_snoc:
  "run_calls rl (calls @ [call]) = limiter_step (run_calls rl calls) call"
  by (simp add: run_calls_def)

lemma run_calls_inv:
  "length (snd (run_calls (new_rate_limiter m w) calls)) = length calls
   \<and> max_requests (fst (run_calls (new_rate_limiter m w) calls)) = m
   \<and> window_seconds (fst (run_calls (new_rate_limiter m w) calls)) = w
   \<and> (\<forall>u c. (\<forall>p \<in> set calls. snd p - timedelta_seconds w \<le> c) \<longrightarrow>
         filter (\<lambda>t. c < t) (requests (fst (run_calls (new_rate_limiter m w) calls)) u)
         = filter (\<lambda>t. c < t)
             (map (\<lambda>q. snd (fst q))
                (filter (\<lambda>q. snd q \<and> fst (fst q) = u)
                   (zip calls (snd (run_calls (new_rate_limiter m w) calls))))))"
proof (induction calls rule: rev_induct)
  case Nil
  then show ?case by (simp add: run_calls_def new_rate_limiter_def)
next
  case (snoc call calls)
  define st where "st = run_calls (new_rate_limiter m w) calls"
  define rl where "rl = fst st"
  define ds where "ds = snd st"
  define v where "v = fst call"
  define t where "t = snd call"
  define d where "d = fst (snd (is_allowed rl t v))"
  have len: "length ds = length calls" and mx: "max_requests rl = m" and win: "window_seconds rl = w"
    and ih: "\<And>u c. (\<forall>p \<in> set calls. snd p - timedelta_seconds w \<le> c) \<Longrightarrow>
         filter (\<lambda>x. c < x) (requests rl u)
         = filter (\<lambda>x. c < x) (map (\<lambda>q. snd (fst q)) (filter (\<lambda>q. snd q \<and> fst (fst q) = u) (zip calls ds)))"
    using snoc.IH by (simp_all add: st_def rl_def ds_def)
  have step: "run_calls (new_rate_limiter m w) (calls @ [call]) = (fst (is_allowed rl t v), ds @ [d])"
    by (simp add: run_calls_snoc limiter_step_def st_def rl_def ds_def v_def t_def d_def)
  have zip: "zip (calls @ [call]) (ds @ [d]) = zip calls ds @ [(call, d)]"
    using len by simp
  have main: "filter (\<lambda>x. c < x) (requests (fst (is_allowed rl t v)) u)
         = filter (\<lambda>x. c < x)
             (map (\<lambda>q. snd (fst q))
                (filter (\<lambda>q. snd q \<and> fst (fst q) = u) (zip calls ds @ [(call, d)])))"
    if c: "\<forall>p \<in> set (calls @ [call]). snd p - timedelta_seconds w \<le> c" for u c
  proof -
    have cprev: "\<forall>p \<in> set calls. snd p - timedelta_seconds w \<le> c" using c by simp
    have ct: "t - timedelta_seconds w \<le> c" using c by (simp add: t_def)
    show ?thesis
    proof (cases "u = v")
      case True
      have "filter (\<lambda>x. c < x) (filter (\<lambda>x. t - timedelta_seconds w < x) (requests rl v))
              = filter (\<lambda>x. c < x) (requests rl v)"
        using ct by (auto intro: filter_cong)
      then show ?thesis
        using True ih[OF cprev, of v]
        by (simp add: is_allowed_requests win d_def[symmetric] v_def[symmetric] t_def[symmetric])
    next
      case False
      then show ?thesis
        using ih[OF cprev, of u]
        by (simp add: is_allowed_requests v_def[symmetric])
    qed
  qed
  show ?case
    unfolding step zip
    using len mx win main by (simp add: is_allowed_config)
qed

lemma decision_from_history:
  assumes "\<forall>p \<in> set calls. snd p \<le> now"
  shows "fst (snd (is_allowed (fst (run_calls (new_rate_limiter m w) calls)) now u))
         \<longleftrightarrow> int (allowed_in_window w calls (snd (run_calls (new_rate_limiter m w) calls)) u now) < m"
proof -
  define rl where "rl = fst (run_calls (new_rate_limiter m w) calls)"
  define ds where "ds = snd (run_calls (new_rate_limiter m w) calls)"
  have c: "\<forall>p \<in> set calls. snd p - timedelta_seconds w \<le> now - timedelta_seconds w"
    using assms by simp
  from run_calls_inv[of m w calls]
  have mx: "max_requests rl = m" and win: "window_seconds rl = w"
    and inv: "filter (\<lambda>x. now - timedelta_seconds w < x) (requests rl u)
         = filter (\<lambda>x. now - timedelta_seconds w < x)
             (map (\<lambda>q. snd (fst q)) (filter (\<lambda>q. snd q \<and> fst (fst q) = u) (zip calls ds)))"
    using c by (simp_all add: rl_def ds_def)
  have "length (filter (\<lambda>x. now - timedelta_seconds w < x) (requests rl u))
          = allowed_in_window w calls ds u now"
    unfolding inv allowed_in_window_def
    by (simp add: filter_map o_def conj_ac)
  then show ?thesis
    unfolding rl_def[symmetric] ds_def[symmetric]
    by (simp add: is_allowed_decision mx win)
qed

lemma handler_denied:
  assumes "\<not> fst (snd (is_allowed rl (clock e) user))"
  shows "poll_handler_command rl e user channel raw =
           (fst (is_allowed rl (clock e) user),
            [PostEphemeralCall channel user (LimiterText (snd (snd (is_allowed rl (clock e) user))))])"
  using assms by (simp add: poll_handler_command_def case_prod_beta Let_def)

lemma handler_allowed:
  assumes "fst (snd (is_allowed rl (clock e) user))"
  shows "fst (poll_handler_command rl e user channel raw) = fst (is_allowed rl (clock e) user)"
    and "take 2 (snd (poll_handler_command rl e user channel raw))
           = [GetBySlackId user, UsersInfoCall user]"
  using assms by (simp_all add: poll_handler_command_def case_prod_beta Let_def)

lemma denied_text:
  assumes "\<not> fst (snd (is_allowed rl now u))"
  shows "\<exists>wait. snd (snd (is_allowed rl now u)) = Some (TooManyRequestsMsg wait)"
  using assms by (simp add: is_allowed_def Let_def split: if_splits)

lemma two_calls_run:
  "run_calls (new_rate_limiter 2 60) two_calls
     = (\<lparr> max_requests = 2, window_seconds = 60,
           requests = (\<lambda>_. [])(''U1'' := [0, timedelta_seconds 10]) \<rparr>, [True, True])"
  by (simp add: run_calls_def two_calls_def limiter_step_def is_allowed_def Let_def
        new_rate_limiter_def timedelta_seconds_def)

section \<open>Closing a poll or a match twice\<close>

text \<open>
  Counterexample to claim C2 as stated, for matches. A service with an admin channel
  holds one active match; \<open>close_match\<close> runs twice with every collaborator call
  succeeding. The first run closes the match and sends the report and the closing notice;
  the second run sends both again, so it is not a no-op.
\<close>

theorem close_match_twice_counterexample:
  "chat (close_match one_match quiet_close ''G1'' ''m1'')
     = [(''ADMIN'', AdminReport ''G1'' ''B'' ''A'' NoConversationSummary), (''G1'', ClosingNotice)]
   \<and> map row_status (match_repo (close_match one_match quiet_close ''G1'' ''m1'')) = [Closed]
   \<and> chat (close_match (close_match one_match quiet_close ''G1'' ''m1'') quiet_close ''G1'' ''m1'')
     = [(''ADMIN'', AdminReport ''G1'' ''B'' ''A'' NoConversationSummary), (''G1'', ClosingNotice),
        (''ADMIN'', AdminReport ''G1'' ''B'' ''A'' NoConversationSummary), (''G1'', ClosingNotice)]
   \<and> close_match (close_match one_match quiet_close ''G1'' ''m1'') quiet_close ''G1'' ''m1''
     \<noteq> close_match one_match quiet_close ''G1'' ''m1''"
proof -
  note first = close_match_done[OF one_match_facts(1-7), of "''G1''"]
  have c1: "chat (close_match one_match quiet_close ''G1'' ''m1'')
     = [(''ADMIN'', AdminReport ''G1'' ''B'' ''A'' NoConversationSummary), (''G1'', ClosingNotice)]"
    by (simp add: first one_match_facts(8))
  have st: "map row_status (match_repo (close_match one_match quiet_close ''G1'' ''m1'')) = [Closed]"
    by (simp add: first) (simp add: one_match_def repo_update_def)
  have c2: "chat (close_match (close_match one_match quiet_close ''G1'' ''m1'') quiet_close ''G1'' ''m1'')
     = [(''ADMIN'', AdminReport ''G1'' ''B'' ''A'' NoConversationSummary), (''G1'', ClosingNotice),
        (''ADMIN'', AdminReport ''G1'' ''B'' ''A'' NoConversationSummary), (''G1'', ClosingNotice)]"
    using close_match_twice(3)[OF one_match_facts(1-7), of "''G1''"]
    by (simp add: one_match_facts(8))
  have "chat (close_match (close_match one_match quiet_close ''G1'' ''m1'') quiet_close ''G1'' ''m1'')
     \<noteq> chat (close_match one_match quiet_close ''G1'' ''m1'')"
    unfolding c1 c2 by simp
  then have ne: "close_match (close_match one_match quiet_close ''G1'' ''m1'') quiet_close ''G1'' ''m1''
     \<noteq> close_match one_match quiet_close ''G1'' ''m1''"
    by auto
  show ?thesis using c1 st c2 ne by simp
qed

text \<open>
  Claim C2, amended. Polls: when the closing task finds an open poll and its database
  update succeeds, the poll is closed afterwards, a second run of the task returns the
  state unchanged, and the two runs together delete the poll message at most once and
  post exactly the one result message of the first run (none if that posting failed).
  Matches: \<open>close_match\<close> has no test for an already closed match; a match closed by
  the first run is still closed after the second, and each run that gets through sends
  the report to the admin channel and the closing notice, so two runs send four messages.
\<close>

theorem closing_twice:
  "(get_poll_by_ts True (database w) ts = Some poll \<and> is_active poll \<and> lookup_ok e1 \<and> close_ok e1
     \<longrightarrow> get_poll_by_ts True (database (close_poll_task w e1 ts)) ts
            = Some (poll\<lparr>is_active := False\<rparr>)
         \<and> close_poll_task (close_poll_task w e1 ts) e2 ts = close_poll_task w e1 ts
         \<and> slack (close_poll_task (close_poll_task w e1 ts) e2 ts)
            = slack w
              @ (if delete_ok e1 then [DeleteMessage (poll_channel_id poll) ts] else [])
              @ (if post_result_ok e1
                 then [PostMessage (poll_channel_id poll)
                         (result_message (get_poll_results (results_ok e1) (database w) (poll_id poll))
                            (topic poll) (options poll))]
                 else []))
   \<and> (history c = Some msgs \<and> summary_for c msgs = Some summ
        \<and> update_ok c \<and> admin_post_ok c \<and> closing_post_ok c
        \<and> admin_target s = Some adm \<and> repo_get (match_repo s) mid = Some r
     \<longrightarrow> repo_get (match_repo (close_match s c ch mid)) mid
            = Some (r\<lparr>row_status := Closed, row_summary := Some summ\<rparr>)
         \<and> repo_get (match_repo (close_match (close_match s c ch mid) c ch mid)) mid
            = Some (r\<lparr>row_status := Closed, row_summary := Some summ\<rparr>)
         \<and> chat (close_match (close_match s c ch mid) c ch mid)
            = chat s @ [(adm, AdminReport ch (user1_id r) (user2_id r) summ), (ch, ClosingNotice),
                        (adm, AdminReport ch (user1_id r) (user2_id r) summ), (ch, ClosingNotice)])"
proof (intro conjI impI)
  assume h: "get_poll_by_ts True (database w) ts = Some poll \<and> is_active poll \<and> lookup_ok e1 \<and> close_ok e1"
  then have a: "get_poll_by_ts True (database w) ts = Some poll" "is_active poll" "lookup_ok e1" "close_ok e1"
    by simp_all
  have look: "get_poll_by_ts (lookup_ok e1) (database w) ts = Some poll" using a by simp
  show "get_poll_by_ts True (database (close_poll_task w e1 ts)) ts = Some (poll\<lparr>is_active := False\<rparr>)"
    by (rule lookup_after_close[OF a])
  show "close_poll_task (close_poll_task w e1 ts) e2 ts = close_poll_task w e1 ts"
    by (rule close_poll_twice[OF a])
  show "slack (close_poll_task (close_poll_task w e1 ts) e2 ts)
            = slack w
              @ (if delete_ok e1 then [DeleteMessage (poll_channel_id poll) ts] else [])
              @ (if post_result_ok e1
                 then [PostMessage (poll_channel_id poll)
                         (result_message (get_poll_results (results_ok e1) (database w) (poll_id poll))
                            (topic poll) (options poll))]
                 else [])"
    unfolding close_poll_twice[OF a] by (simp add: close_poll_task_open[OF look a(2)])
next
  assume h: "history c = Some msgs \<and> summary_for c msgs = Some summ
        \<and> update_ok c \<and> admin_post_ok c \<and> closing_post_ok c
        \<and> admin_target s = Some adm \<and> repo_get (match_repo s) mid = Some r"
  then have a: "history c = Some msgs" "summary_for c msgs = Some summ"
      "update_ok c" "admin_post_ok c" "closing_post_ok c"
      "admin_target s = Some adm" "repo_get (match_repo s) mid = Some r"
    by simp_all
  show "repo_get (match_repo (close_match s c ch mid)) mid
            = Some (r\<lparr>row_status := Closed, row_summary := Some summ\<rparr>)"
    by (rule close_match_twice(1)[OF a])
  show "repo_get (match_repo (close_match (close_match s c ch mid) c ch mid)) mid
            = Some (r\<lparr>row_status := Closed, row_summary := Some summ\<rparr>)"
    by (rule close_match_twice(2)[OF a])
  show "chat (close_match (close_match s c ch mid) c ch mid)
            = chat s @ [(adm, AdminReport ch (user1_id r) (user2_id r) summ), (ch, ClosingNotice),
                        (adm, AdminReport ch (user1_id r) (user2_id r) summ), (ch, ClosingNotice)]"
    by (rule close_match_twice(3)[OF a])
qed

theorem closing_twice_witness:
  "get_poll_by_ts True (database (lunch_bot [vote ''A'' 0])) ''100.1'' = Some lunch_poll
   \<and> is_active lunch_poll \<and> lookup_ok close_all_ok \<and> close_ok close_all_ok
   \<and> close_poll_task (close_poll_task (lunch_bot [vote ''A'' 0]) close_all_ok ''100.1'')
         close_all_ok ''100.1''
       = close_poll_task (lunch_bot [vote ''A'' 0]) close_all_ok ''100.1''
   \<and> slack (close_poll_task (close_poll_task (lunch_bot [vote ''A'' 0]) close_all_ok ''100.1'')
         close_all_ok ''100.1'')
       = [DeleteMessage ''C1'' ''100.1'',
          PostMessage ''C1'' (PollResult ''Lunch'' [(''Kebap'', 1), (''Pizza'', 0)] (Winners [''Kebap'']))]
   \<and> history quiet_close = Some [] \<and> summary_for quiet_close [] = Some NoConversationSummary
   \<and> update_ok quiet_close \<and> admin_post_ok quiet_close \<and> closing_post_ok quiet_close
   \<and> admin_target one_match = Some ''ADMIN''
   \<and> repo_get (match_repo one_match) ''m1'' =
        Some \<lparr> row_id = ''m1'', row_channel_id = ''G1'', user1_id = ''B'',
               user2_id = ''A'', row_status = Active, row_summary = None \<rparr>
   \<and> length (chat (close_match (close_match one_match quiet_close ''G1'' ''m1'')
                      quiet_close ''G1'' ''m1'')) = 4"
proof -
  have p: "get_poll_by_ts True (database (lunch_bot [vote ''A'' 0])) ''100.1'' = Some lunch_poll"
    "is_active lunch_poll" "lookup_ok close_all_ok" "close_ok close_all_ok"
    "delete_ok close_all_ok" "post_result_ok close_all_ok" "slack (lunch_bot [vote ''A'' 0]) = []"
    "results_ok close_all_ok"
    by (simp_all add: get_poll_by_ts_def lunch_bot_def lunch_poll_def close_all_ok_def)
  have res: "result_message (get_poll_results True (database (lunch_bot [vote ''A'' 0]))
                (poll_id lunch_poll)) (topic lunch_poll) (options lunch_poll)
             = PollResult ''Lunch'' [(''Kebap'', 1), (''Pizza'', 0)] (Winners [''Kebap''])"
    by (simp add: result_message_def get_poll_results_def lunch_bot_def lunch_poll_def vote_def Let_def)
  have ch: "poll_channel_id lunch_poll = ''C1''" by (simp add: lunch_poll_def)
  note t = closing_twice[of "lunch_bot [vote ''A'' 0]" "''100.1''" lunch_poll close_all_ok close_all_ok
         quiet_close "[]" NoConversationSummary one_match "''ADMIN''" "''m1''"
         "\<lparr> row_id = ''m1'', row_channel_id = ''G1'', user1_id = ''B'',
               user2_id = ''A'', row_status = Active, row_summary = None \<rparr>" "''G1''"]
  from t p(1-4) have idem:
    "close_poll_task (close_poll_task (lunch_bot [vote ''A'' 0]) close_all_ok ''100.1'')
         close_all_ok ''100.1''
       = close_poll_task (lunch_bot [vote ''A'' 0]) close_all_ok ''100.1''"
    by blast
  from t p(1-4) have
    "slack (close_poll_task (close_poll_task (lunch_bot [vote ''A'' 0]) close_all_ok ''100.1'')
         close_all_ok ''100.1'')
       = slack (lunch_bot [vote ''A'' 0])
         @ (if delete_ok close_all_ok then [DeleteMessage (poll_channel_id lunch_poll) ''100.1''] else [])
         @ (if post_result_ok close_all_ok
            then [PostMessage (poll_channel_id lunch_poll)
                    (result_message (get_poll_results (results_ok close_all_ok)
                        (database (lunch_bot [vote ''A'' 0])) (poll_id lunch_poll))
                        (topic lunch_poll) (options lunch_poll))]
            else [])"
    by blast
  then have sl:
    "slack (close_poll_task (close_poll_task (lunch_bot [vote ''A'' 0]) close_all_ok ''100.1'')
         close_all_ok ''100.1'')
       = [DeleteMessage ''C1'' ''100.1'',
          PostMessage ''C1'' (PollResult ''Lunch'' [(''Kebap'', 1), (''Pizza'', 0)] (Winners [''Kebap'']))]"
    using p(5-8) by (simp add: res ch)
  from t one_match_facts(1-7) have
    "chat (close_match (close_match one_match quiet_close ''G1'' ''m1'') quiet_close ''G1'' ''m1'')
       = chat one_match
         @ [(''ADMIN'', AdminReport ''G1'' ''B'' ''A'' NoConversationSummary), (''G1'', ClosingNotice),
            (''ADMIN'', AdminReport ''G1'' ''B'' ''A'' NoConversationSummary), (''G1'', ClosingNotice)]"
    by simp
  then have len: "length (chat (close_match (close_match one_match quiet_close ''G1'' ''m1'')
                      quiet_close ''G1'' ''m1'')) = 4"
    by (simp add: one_match_facts(8))
  show ?thesis
    using p(1-4) idem sl one_match_facts(1-7) len by simp
qed

section \<open>Voting twice\<close>

text \<open>
  Counterexample to claim C1 as stated. On an open two-option poll without votes, user
  \<open>U1\<close> presses the button of option 0 and then the button of option 1. The first vote is
  stored and acknowledged; the second is answered with the text that the user has already
  voted, and the stored vote is still the one for option 0, not a vote for option 1.
\<close>

theorem revote_replaces_counterexample:
  "fst (handle_vote_action (lunch_bot []) votes_ok ''U1'' ''C1'' ''100.1'' ''0'')
     = (lunch_bot [vote ''U1'' 0])\<lparr>slack := [PostEphemeral ''C1'' ''U1'' (VoteRecordedMsg ''Kebap'')]\<rparr>
   \<and> handle_vote_action
        (fst (handle_vote_action (lunch_bot []) votes_ok ''U1'' ''C1'' ''100.1'' ''0''))
        votes_ok ''U1'' ''C1'' ''100.1'' ''1''
     = ((lunch_bot [vote ''U1'' 0])
          \<lparr>slack := [PostEphemeral ''C1'' ''U1'' (VoteRecordedMsg ''Kebap''),
                     PostEphemeral ''C1'' ''U1'' AlreadyVotedMsg]\<rparr>, None)
   \<and> votes (database (fst (handle_vote_action
        (fst (handle_vote_action (lunch_bot []) votes_ok ''U1'' ''C1'' ''100.1'' ''0''))
        votes_ok ''U1'' ''C1'' ''100.1'' ''1'')))
     \<noteq> [vote ''U1'' 1]"
proof -
  have i0: "py_int ''0'' = Some 0" and i1: "py_int ''1'' = Some 1"
    by (simp_all add: parse_eval)
  have look: "\<And>vs. get_poll_by_ts True (database (lunch_bot vs)) ''100.1'' = Some lunch_poll"
    by (simp add: get_poll_by_ts_def lunch_bot_def lunch_poll_def)
  have act: "is_active lunch_poll" by (simp add: lunch_poll_def)
  have nv: "\<not> has_user_voted True (database (lunch_bot [])) (poll_id lunch_poll) ''U1''"
    by (simp add: has_user_voted_def lunch_bot_def)
  have r0: "sqlite_integer 0" by (simp add: sqlite_integer_def)
  have first: "handle_vote_action (lunch_bot []) votes_ok ''U1'' ''C1'' ''100.1'' ''0''
     = ((lunch_bot [vote ''U1'' 0])\<lparr>slack := [PostEphemeral ''C1'' ''U1'' (VoteRecordedMsg ''Kebap'')]\<rparr>, None)"
    unfolding first_vote[OF i0 look act nv r0]
    by (simp add: py_index_def lunch_poll_def lunch_bot_def add_vote_def vote_def r0)
  define w1 where "w1 = (lunch_bot [vote ''U1'' 0])\<lparr>slack := [PostEphemeral ''C1'' ''U1'' (VoteRecordedMsg ''Kebap'')]\<rparr>"
  have look1: "get_poll_by_ts True (database w1) ''100.1'' = Some lunch_poll"
    by (simp add: w1_def look)
  have hv: "has_user_voted True (database w1) (poll_id lunch_poll) ''U1''"
    by (simp add: w1_def has_user_voted_def lunch_bot_def lunch_poll_def vote_def)
  have second: "handle_vote_action w1 votes_ok ''U1'' ''C1'' ''100.1'' ''1''
     = (w1\<lparr>slack := slack w1 @ [PostEphemeral ''C1'' ''U1'' AlreadyVotedMsg]\<rparr>, None)"
    by (rule second_vote[OF i1 look1 act hv])
  have ne: "[vote ''U1'' 0] \<noteq> [vote ''U1'' 1]" by (simp add: vote_def)
  show ?thesis
    using ne by (simp add: first w1_def[symmetric] second) (simp add: w1_def lunch_bot_def)
qed

text \<open>
  Claim C1, amended. The store operation \<open>add_vote\<close> is an upsert keyed by poll and
  user: two writes for the same key leave exactly one row, with the second choice (for a
  choice that SQLite can store, that is, a signed 64-bit integer). The vote handler,
  however, tests \<open>has_user_voted\<close> first. For an open poll, a user with no stored vote on
  it, and a valid first option index \<open>i\<close>: the first vote is stored and acknowledged with
  the label of option \<open>i\<close>; a second vote of the same user, for any index \<open>j\<close>, is
  answered with the already-voted text and changes no stored vote. After both, exactly
  one vote of the user on the poll is stored and its option is \<open>i\<close>.
\<close>

theorem second_vote_rejected:
  assumes v1: "py_int v1 = Some i" and v2: "py_int v2 = Some j"
      and look: "get_poll_by_ts True (database w) ts = Some poll" and act: "is_active poll"
      and fresh: "\<not> has_user_voted True (database w) (poll_id poll) u"
      and valid: "0 \<le> i" "i < int (length (options poll))"
      and stored: "sqlite_integer i"
  shows "fst (handle_vote_action w votes_ok u ch ts v1)
           = w\<lparr>database := fst (add_vote True (database w) (poll_id poll) u i),
               slack := slack w @ [PostEphemeral ch u (VoteRecordedMsg (options poll ! nat i))]\<rparr>
       \<and> filter (\<lambda>r. vote_poll_id r = poll_id poll \<and> vote_user_id r = u)
            (votes (database (fst (handle_vote_action w votes_ok u ch ts v1))))
           = [\<lparr> vote_poll_id = poll_id poll, vote_user_id = u, option_index = i \<rparr>]
       \<and> handle_vote_action (fst (handle_vote_action w votes_ok u ch ts v1)) votes_ok u ch ts v2
           = ((fst (handle_vote_action w votes_ok u ch ts v1))
                \<lparr>slack := slack (fst (handle_vote_action w votes_ok u ch ts v1))
                            @ [PostEphemeral ch u AlreadyVotedMsg]\<rparr>, None)
       \<and> filter (\<lambda>r. vote_poll_id r = poll_id poll \<and> vote_user_id r = u)
            (votes (database (fst (handle_vote_action
                (fst (handle_vote_action w votes_ok u ch ts v1)) votes_ok u ch ts v2))))
           = [\<lparr> vote_poll_id = poll_id poll, vote_user_id = u, option_index = i \<rparr>]
       \<and> (sqlite_integer j \<longrightarrow>
            filter (\<lambda>r. vote_poll_id r = pid \<and> vote_user_id r = u)
              (votes (fst (add_vote True (fst (add_vote True d pid u i)) pid u j)))
            = [\<lparr> vote_poll_id = pid, vote_user_id = u, option_index = j \<rparr>])"
proof -
  define w1 where "w1 = fst (handle_vote_action w votes_ok u ch ts v1)"
  have w1: "w1 = w\<lparr>database := fst (add_vote True (database w) (poll_id poll) u i),
               slack := slack w @ [PostEphemeral ch u (VoteRecordedMsg (options poll ! nat i))]\<rparr>"
    unfolding w1_def first_vote[OF v1 look act fresh stored] by (simp add: py_index_valid[OF valid])
  have key1: "filter (\<lambda>r. vote_poll_id r = poll_id poll \<and> vote_user_id r = u) (votes (database w1))
           = [\<lparr> vote_poll_id = poll_id poll, vote_user_id = u, option_index = i \<rparr>]"
    by (simp add: w1 add_vote_key[OF stored])
  have look1: "get_poll_by_ts True (database w1) ts = Some poll"
    by (simp add: w1 lookup_after_add look)
  have hv: "has_user_voted True (database w1) (poll_id poll) u"
    by (simp add: w1 has_voted_after_add[OF stored])
  note second = second_vote[OF v2 look1 act hv, of ch]
  show ?thesis
    unfolding w1_def[symmetric] second using w1 key1 by (simp add: add_vote_key)
qed

theorem second_vote_rejected_witness:
  "py_int ''0'' = Some 0 \<and> py_int ''1'' = Some 1
   \<and> get_poll_by_ts True (database (lunch_bot [])) ''100.1'' = Some lunch_poll
   \<and> is_active lunch_poll
   \<and> \<not> has_user_voted True (database (lunch_bot [])) (poll_id lunch_poll) ''U1''
   \<and> (0::int) \<le> 0 \<and> 0 < int (length (options lunch_poll)) \<and> sqlite_integer 0
   \<and> filter (\<lambda>r. vote_poll_id r = poll_id lunch_poll \<and> vote_user_id r = ''U1'')
        (votes (database (fst (handle_vote_action
            (fst (handle_vote_action (lunch_bot []) votes_ok ''U1'' ''C1'' ''100.1'' ''0''))
            votes_ok ''U1'' ''C1'' ''100.1'' ''1''))))
       = [\<lparr> vote_poll_id = poll_id lunch_poll, vote_user_id = ''U1'', option_index = 0 \<rparr>]"
proof -
  have i0: "py_int ''0'' = Some 0" and i1: "py_int ''1'' = Some 1"
    by (simp_all add: parse_eval)
  have look: "get_poll_by_ts True (database (lunch_bot [])) ''100.1'' = Some lunch_poll"
    by (simp add: get_poll_by_ts_def lunch_bot_def lunch_poll_def)
  have act: "is_active lunch_poll" by (simp add: lunch_poll_def)
  have nv: "\<not> has_user_voted True (database (lunch_bot [])) (poll_id lunch_poll) ''U1''"
    by (simp add: has_user_voted_def lunch_bot_def)
  have valid: "(0::int) \<le> 0" "0 < int (length (options lunch_poll))"
    by (simp_all add: lunch_poll_def)
  have r0: "sqlite_integer 0" by (simp add: sqlite_integer_def)
  from second_vote_rejected[OF i0 i1 look act nv valid r0,
         where ch = "''C1''" and pid = 1 and d = "database (lunch_bot [])"]
  have "filter (\<lambda>r. vote_poll_id r = poll_id lunch_poll \<and> vote_user_id r = ''U1'')
        (votes (database (fst (handle_vote_action
            (fst (handle_vote_action (lunch_bot []) votes_ok ''U1'' ''C1'' ''100.1'' ''0''))
            votes_ok ''U1'' ''C1'' ''100.1'' ''1''))))
       = [\<lparr> vote_poll_id = poll_id lunch_poll, vote_user_id = ''U1'', option_index = 0 \<rparr>]"
    by blast
  then show ?thesis using i0 i1 look act nv valid r0 by simp
qed

section \<open>Bounds of a new poll\<close>

text \<open>
  Claim C3 says that a poll with fewer than 2 or more than 10 options, or with a duration
  outside 1 to 1440 minutes, is rejected before anything is stored. The \<open>/oylama\<close>
  handler of bot.py tests only that there are at least two options. Evaluated for an admin
  on an empty database with a running scheduler: a duration of 0 minutes, a duration of
  1441 minutes and eleven options each store the poll and schedule its closing task; one
  option is rejected before anything is stored, with the general format text.
\<close>

theorem poll_bounds_not_enforced:
  "polls (database (handle_poll_command fresh_bot admin_env ''ADM'' ''C1'' ''0 Lunch | A | B''))
     = [\<lparr> poll_id = 1, poll_channel_id = ''C1'', message_ts = ''200.2'', creator_id = ''ADM'',
          topic = ''Lunch'', options = [''A'', ''B''], end_time = 63800000000000000,
          is_active = True \<rparr>]
   \<and> global_scheduler (handle_poll_command fresh_bot admin_env ''ADM'' ''C1'' ''0 Lunch | A | B'')
     = Some [(''close_200.2'', ''200.2'', 63800000000000000)]
   \<and> map options (polls (database
        (handle_poll_command fresh_bot admin_env ''ADM'' ''C1'' ''1441 Lunch | A | B'')))
     = [[''A'', ''B'']]
   \<and> map fst (case global_scheduler
                  (handle_poll_command fresh_bot admin_env ''ADM'' ''C1'' ''1441 Lunch | A | B'')
                of None \<Rightarrow> [] | Some jobs \<Rightarrow> jobs)
     = [''close_200.2'']
   \<and> map (\<lambda>p. length (options p)) (polls (database
        (handle_poll_command fresh_bot admin_env ''ADM'' ''C1'' ''10 Snack|tea|cay|kahve|su|simit|kek|elma|muz|corba|pide|ayran'')))
     = [11]
   \<and> handle_poll_command fresh_bot admin_env ''ADM'' ''C1'' ''10 Lunch | A''
     = fresh_bot\<lparr>slack := [PostEphemeral ''C1'' ''ADM'' BadFormatMsg]\<rparr>"
proof -
  have one: "handle_poll_command fresh_bot admin_env ''ADM'' ''C1'' ''10 Lunch | A''
     = fresh_bot\<lparr>slack := [PostEphemeral ''C1'' ''ADM'' BadFormatMsg]\<rparr>"
    using parse_one_option
    by (simp add: handle_poll_command_def admin_env_def is_admin_def post_ephemeral_def fresh_bot_def)
  show ?thesis
    using one
    by (simp add: admin_poll_created[OF parse_zero_minutes] admin_poll_created[OF parse_long_poll]
          admin_poll_created[OF parse_eleven] timedelta_minutes_def)
qed

section \<open>A vote for an option index out of range\<close>

text \<open>
  Claim C4 does not hold of the code: the vote handler never compares the option index
  with the number of options. On an open two-option poll without votes, the button value
  \<open>5\<close> is stored as a vote for option index 5 before the handler fails with \<open>IndexError\<close>
  on the label lookup, so the stored votes of the poll have changed and hold an index
  outside the options, and the user gets no answer. The value \<open>-1\<close> is stored as index
  \<open>-1\<close> and acknowledged with the label of the last option. Only a value that SQLite
  cannot store, such as \<open>9223372036854775808\<close>, leaves the votes unchanged, and then
  because the write fails: the user is told that the vote could not be recorded.
\<close>

theorem option_index_not_checked:
  "handle_vote_action (lunch_bot []) votes_ok ''U1'' ''C1'' ''100.1'' ''5''
     = (lunch_bot [vote ''U1'' 5], Some IndexError)
   \<and> length (options lunch_poll) = 2
   \<and> votes (database (fst (handle_vote_action (lunch_bot []) votes_ok ''U1'' ''C1'' ''100.1'' ''5'')))
       = [\<lparr> vote_poll_id = 1, vote_user_id = ''U1'', option_index = 5 \<rparr>]
   \<and> votes (database (fst (handle_vote_action (lunch_bot []) votes_ok ''U1'' ''C1'' ''100.1'' ''5'')))
       \<noteq> votes (database (lunch_bot []))
   \<and> handle_vote_action (lunch_bot []) votes_ok ''U1'' ''C1'' ''100.1'' ''-1''
     = ((lunch_bot [vote ''U1'' (- 1)])
          \<lparr>slack := [PostEphemeral ''C1'' ''U1'' (VoteRecordedMsg ''Pizza'')]\<rparr>, None)
   \<and> handle_vote_action (lunch_bot []) votes_ok ''U1'' ''C1'' ''100.1'' ''9223372036854775808''
     = ((lunch_bot [])\<lparr>slack := [PostEphemeral ''C1'' ''U1'' VoteFailedMsg]\<rparr>, None)"
proof -
  have i5: "py_int ''5'' = Some 5" and im: "py_int ''-1'' = Some (- 1)"
    and ib: "py_int ''9223372036854775808'' = Some 9223372036854775808"
    by (simp_all add: parse_eval)
  have r5: "sqlite_integer 5" and rm: "sqlite_integer (- 1)"
    and rb: "\<not> sqlite_integer 9223372036854775808"
    by (simp_all add: sqlite_integer_def)
  have look: "get_poll_by_ts True (database (lunch_bot [])) ''100.1'' = Some lunch_poll"
    by (simp add: get_poll_by_ts_def lunch_bot_def lunch_poll_def)
  have act: "is_active lunch_poll" by (simp add: lunch_poll_def)
  have nv: "\<not> has_user_voted True (database (lunch_bot [])) (poll_id lunch_poll) ''U1''"
    by (simp add: has_user_voted_def lunch_bot_def)
  have a: "handle_vote_action (lunch_bot []) votes_ok ''U1'' ''C1'' ''100.1'' ''5''
     = (lunch_bot [vote ''U1'' 5], Some IndexError)"
    unfolding first_vote[OF i5 look act nv r5]
    by (simp add: py_index_def lunch_poll_def lunch_bot_def add_vote_def vote_def r5)
  have b: "handle_vote_action (lunch_bot []) votes_ok ''U1'' ''C1'' ''100.1'' ''-1''
     = ((lunch_bot [vote ''U1'' (- 1)])
          \<lparr>slack := [PostEphemeral ''C1'' ''U1'' (VoteRecordedMsg ''Pizza'')]\<rparr>, None)"
    unfolding first_vote[OF im look act nv rm]
    by (simp add: py_index_def lunch_poll_def lunch_bot_def add_vote_def vote_def rm)
  have c: "handle_vote_action (lunch_bot []) votes_ok ''U1'' ''C1'' ''100.1'' ''9223372036854775808''
     = ((lunch_bot [])\<lparr>slack := [PostEphemeral ''C1'' ''U1'' VoteFailedMsg]\<rparr>, None)"
    unfolding overflowing_vote[OF ib look act nv rb] by (simp add: lunch_bot_def)
  show ?thesis
    unfolding a b c by (simp add: lunch_bot_def vote_def lunch_poll_def)
qed

section \<open>A failure while creating a match\<close>

text \<open>
  Counterexample to claim C5 as stated. User \<open>A\<close> waits (in the pool, timeout job
  scheduled, handle recorded); user \<open>B\<close> requests a coffee and opening the conversation
  raises. \<open>request_coffee\<close> leaves with \<open>CemilBotError\<close>, and the state is not the one
  before the attempt: \<open>A\<close> is out of the pool, \<open>A\<close>'s timeout job is cancelled and its
  handle removed, no match row exists, and \<open>B\<close>'s request time is recorded.
\<close>

theorem failed_match_not_rolled_back_counterexample:
  "waiting_pool one_waiting = [''A'']
   \<and> pool_timeout_jobs one_waiting ''A'' = Some ''coffee_timeout_A''
   \<and> cron one_waiting ''coffee_timeout_A'' = Some (TimeoutUser ''A'')
   \<and> last_request_time one_waiting ''B'' = None
   \<and> snd (request_coffee one_waiting open_fails ''B'' ''C1'')
        = Inl (CemilBotError OpenConversation)
   \<and> waiting_pool (fst (request_coffee one_waiting open_fails ''B'' ''C1'')) = []
   \<and> pool_timeout_jobs (fst (request_coffee one_waiting open_fails ''B'' ''C1'')) ''A'' = None
   \<and> cron (fst (request_coffee one_waiting open_fails ''B'' ''C1'')) ''coffee_timeout_A'' = None
   \<and> match_repo (fst (request_coffee one_waiting open_fails ''B'' ''C1'')) = []
   \<and> last_request_time (fst (request_coffee one_waiting open_fails ''B'' ''C1'')) ''B''
        = Some (timedelta_minutes 1)
   \<and> fst (request_coffee one_waiting open_fails ''B'' ''C1'') \<noteq> one_waiting"
proof -
  have can: "fst (can_request_coffee one_waiting (now_check open_fails) ''B'')"
    by (rule not_in_cooldown) (simp_all add: one_waiting_fields)
  have pool: "waiting_pool one_waiting = [''A'']" by (simp add: one_waiting_fields)
  have f: "conv_open open_fails = None \<or> repo_create open_fails = None"
    by (simp add: open_fails_def)
  note eq = request_match_fails[OF pool can f, of "''C1''"]
  have nr: "now_record open_fails = timedelta_minutes 1" and co: "conv_open open_fails = None"
    by (simp_all add: open_fails_def match_env_def)
  have ne: "waiting_pool (fst (request_coffee one_waiting open_fails ''B'' ''C1''))
              \<noteq> waiting_pool one_waiting"
    by (simp add: eq cancel_frame pool)
  then have ne': "fst (request_coffee one_waiting open_fails ''B'' ''C1'') \<noteq> one_waiting"
    by auto
  show ?thesis
    using ne' by (simp add: eq cancel_frame cancel_handles cancel_cron one_waiting_fields nr co)
qed

text \<open>
  Claim C5, amended. If opening the conversation or storing the match row raises after a
  partner \<open>a\<close> has been taken from the pool, \<open>request_coffee\<close> surfaces the failure as
  \<open>CemilBotError\<close> and nothing is rolled back: the partner stays removed from the pool
  with the timeout job cancelled and the handle removed, the requester's request time
  stays recorded, and no match row and no chat message is added.
\<close>

theorem failed_match_not_rolled_back:
  assumes pool: "waiting_pool s = a # rest"
      and can: "fst (can_request_coffee s (now_check e) b)"
      and fails: "conv_open e = None \<or> repo_create e = None"
  shows "snd (request_coffee s e b ch) =
           Inl (CemilBotError (if conv_open e = None then OpenConversation else RepoCreate))
       \<and> waiting_pool (fst (request_coffee s e b ch)) = rest
       \<and> pool_timeout_jobs (fst (request_coffee s e b ch)) a = None
       \<and> (\<forall>j. pool_timeout_jobs s a = Some j \<longrightarrow> cron (fst (request_coffee s e b ch)) j = None)
       \<and> last_request_time (fst (request_coffee s e b ch)) = (last_request_time s)(b \<mapsto> now_record e)
       \<and> match_repo (fst (request_coffee s e b ch)) = match_repo s
       \<and> chat (fst (request_coffee s e b ch)) = chat s"
proof -
  note eq = request_match_fails[OF pool can fails, of ch]
  show ?thesis
    by (simp add: eq cancel_frame cancel_handles cancel_cron cancel_chat)
qed

theorem failed_match_not_rolled_back_witness:
  "waiting_pool one_waiting = [''A'']
   \<and> fst (can_request_coffee one_waiting (now_check create_fails) ''B'')
   \<and> repo_create create_fails = None \<and> conv_open create_fails = Some ''G1''
   \<and> pool_timeout_jobs one_waiting ''A'' = Some ''coffee_timeout_A''
   \<and> snd (request_coffee one_waiting create_fails ''B'' ''C1'') = Inl (CemilBotError RepoCreate)
   \<and> waiting_pool (fst (request_coffee one_waiting create_fails ''B'' ''C1'')) = []
   \<and> pool_timeout_jobs (fst (request_coffee one_waiting create_fails ''B'' ''C1'')) ''A'' = None
   \<and> cron (fst (request_coffee one_waiting create_fails ''B'' ''C1'')) ''coffee_timeout_A'' = None
   \<and> match_repo (fst (request_coffee one_waiting create_fails ''B'' ''C1'')) = []"
proof -
  have can: "fst (can_request_coffee one_waiting (now_check create_fails) ''B'')"
    by (rule not_in_cooldown) (simp_all add: one_waiting_fields)
  have pool: "waiting_pool one_waiting = [''A'']" by (simp add: one_waiting_fields)
  have f: "conv_open create_fails = None \<or> repo_create create_fails = None"
    by (simp add: create_fails_def)
  from failed_match_not_rolled_back[OF pool can f, of "''C1''"]
  show ?thesis using can pool
    by (simp add: one_waiting_fields create_fails_def match_env_def)
qed

section \<open>Cooldown of coffee requests\<close>

lemma trunc_ceiling:
  assumes "0 \<le> el" "el < timedelta_minutes 5"
  shows "5 - int_trunc_div el (timedelta_minutes 1)
         = \<lceil>real_of_int (timedelta_minutes 5 - el) / real_of_int (timedelta_minutes 1)\<rceil>"
proof -
  define q where "q = el div 60000000"
  define r where "r = el mod 60000000"
  have el: "el = q * 60000000 + r" and r: "0 \<le> r" "r < 60000000"
    by (simp_all add: q_def r_def)
  have "real_of_int (300000000 - el) / 60000000 = real_of_int (5 - q) - real_of_int r / 60000000"
    by (simp add: el field_simps)
  moreover have "real_of_int (5 - q) - 1 < real_of_int (5 - q) - real_of_int r / 60000000"
    using r by simp
  moreover have "real_of_int (5 - q) - real_of_int r / 60000000 \<le> real_of_int (5 - q)"
    using r by simp
  ultimately have "\<lceil>real_of_int (300000000 - el) / 60000000\<rceil> = 5 - q"
    by (simp only: ceiling_eq_iff) 
  then show ?thesis using assms by (simp add: int_trunc_div_def timedelta_minutes_def q_def)
qed

lemma trunc_range:
  assumes "0 \<le> el" "el < timedelta_minutes 5"
  shows "1 \<le> 5 - int_trunc_div el (timedelta_minutes 1) \<and> 5 - int_trunc_div el (timedelta_minutes 1) \<le> 5"
proof -
  define q where "q = el div 60000000"
  define r where "r = el mod 60000000"
  have el: "el = q * 60000000 + r" and r: "0 \<le> r" "r < 60000000"
    by (simp_all add: q_def r_def)
  have "0 \<le> q \<and> q \<le> 4"
    using assms el r unfolding timedelta_minutes_def by linarith
  then show ?thesis
    using assms by (simp add: int_trunc_div_def timedelta_minutes_def q_def)
qed

lemma cooldown_rejects:
  assumes "last_request_time s u = Some t0" "t0 \<le> now_check e"
    "now_check e - t0 < timedelta_minutes 5"
  shows "request_coffee s e u ch =
           (s, Inr (Some (CooldownMsg (5 - int_trunc_div (now_check e - t0) (timedelta_minutes 1)))))"
proof -
  have cr: "can_request_coffee s (now_check e) u =
              (False, Some (CooldownMsg (5 - int_trunc_div (now_check e - t0) (timedelta_minutes 1))))"
    using assms by (simp add: can_request_coffee_def)
  then have "\<not> fst (can_request_coffee s (now_check e) u)" by simp
  from request_rejected[OF this, of ch] cr show ?thesis by simp
qed

lemma cooldown_over:
  assumes "last_request_time s u = Some t0" "timedelta_minutes 5 \<le> now - t0"
  shows "can_request_coffee s now u =
           (if u \<in> set (waiting_pool s) then (False, Some AlreadyWaitingMsg) else (True, None))"
  using assms by (simp add: can_request_coffee_def)

lemma cooldown_example:
  "(let (s1, r1) = request_coffee (init_service adm) (clock_env 0) u ch;
        (s2, r2) = request_coffee s1 (clock_env (timedelta_minutes 1)) u ch;
        s3 = timeout_user s2 te u;
        (s4, r4) = request_coffee s3 (clock_env (timedelta_minutes 6)) u ch
    in r1 = Inr (Some WaitingMsg) \<and> waiting_pool s1 = [u]
       \<and> r2 = Inr (Some (CooldownMsg 4)) \<and> s2 = s1
       \<and> r4 = Inr (Some WaitingMsg) \<and> waiting_pool s4 = [u])"
proof -
  define s1 where "s1 = enter_pool ((init_service adm)\<lparr>last_request_time := [u \<mapsto> 0]\<rparr>) u"
  have r1: "request_coffee (init_service adm) (clock_env 0) u ch = (s1, Inr (Some WaitingMsg))"
    unfolding s1_def by (rule first_request_waits)
  have pool1: "waiting_pool s1 = [u]"
    by (simp add: s1_def enter_frame init_service_def)
  have last1: "last_request_time s1 u = Some 0"
    by (simp add: s1_def enter_pool_def Let_def)
  have r2: "request_coffee s1 (clock_env (timedelta_minutes 1)) u ch = (s1, Inr (Some (CooldownMsg 4)))"
    using cooldown_rejects[of s1 u 0 "clock_env (timedelta_minutes 1)" ch] last1
    by (simp add: clock_env_def timedelta_minutes_def int_trunc_div_def)
  define s3 where "s3 = timeout_user s1 te u"
  have pool3: "waiting_pool s3 = []" by (simp add: s3_def timeout_pool pool1)
  have last3: "last_request_time s3 u = Some 0"
    using last1 by (simp add: s3_def timeout_user_def Let_def split: option.split)
  have "fst (can_request_coffee s3 (now_check (clock_env (timedelta_minutes 6))) u)"
    by (simp add: can_request_coffee_def last3 pool3 clock_env_def timedelta_minutes_def)
  from request_waits[OF this pool3, of ch]
  have r4: "snd (request_coffee s3 (clock_env (timedelta_minutes 6)) u ch) = Inr (Some WaitingMsg)"
    and pool4: "waiting_pool (fst (request_coffee s3 (clock_env (timedelta_minutes 6)) u ch)) = [u]"
    by (simp_all add: enter_frame pool3)
  have r4': "snd (request_coffee (timeout_user s1 te u) (clock_env (timedelta_minutes 6)) u ch)
               = Inr (Some WaitingMsg)"
    and pool4': "waiting_pool (fst (request_coffee (timeout_user s1 te u)
                   (clock_env (timedelta_minutes 6)) u ch)) = [u]"
    using r4 pool4 by (simp_all only: s3_def)
  show ?thesis
    by (simp only: Let_def case_prod_beta r1 r2 fst_conv snd_conv pool1 r4' pool4' simp_thms)
qed

text \<open>
  Claim C6. A \<open>request_coffee\<close> call by \<open>u\<close> less than five minutes after \<open>u\<close>'s
  recorded request time returns the cooldown text and changes nothing (pool and recorded
  time included); the minutes it names are the ceiling of the remaining time in minutes,
  between 1 and 5. From five minutes on, \<open>can_request_coffee\<close> no longer depends on the
  recorded time: only the pool test decides. Example: a request at \<open>t = 0\<close> enters the
  empty pool, the request at one minute is rejected (four minutes remain), and after the
  five-minute expiry has run the request at six minutes enters the pool again.
\<close>

theorem cooldown_enforcement:
  "(last_request_time s u = Some t0 \<and> t0 \<le> now_check e \<and> now_check e - t0 < timedelta_minutes 5
      \<longrightarrow> (\<exists>remaining. request_coffee s e u ch = (s, Inr (Some (CooldownMsg remaining)))
            \<and> remaining = \<lceil>real_of_int (timedelta_minutes 5 - (now_check e - t0))
                              / real_of_int (timedelta_minutes 1)\<rceil>
            \<and> 1 \<le> remaining \<and> remaining \<le> 5))
   \<and> (last_request_time s u = Some t0 \<and> timedelta_minutes 5 \<le> now - t0
      \<longrightarrow> can_request_coffee s now u =
            (if u \<in> set (waiting_pool s) then (False, Some AlreadyWaitingMsg) else (True, None)))
   \<and> (let (s1, r1) = request_coffee (init_service adm) (clock_env 0) u ch;
           (s2, r2) = request_coffee s1 (clock_env (timedelta_minutes 1)) u ch;
           s3 = timeout_user s2 te u;
           (s4, r4) = request_coffee s3 (clock_env (timedelta_minutes 6)) u ch
       in r1 = Inr (Some WaitingMsg) \<and> waiting_pool s1 = [u]
          \<and> r2 = Inr (Some (CooldownMsg 4)) \<and> s2 = s1
          \<and> r4 = Inr (Some WaitingMsg) \<and> waiting_pool s4 = [u])"
proof (intro conjI impI)
  assume h: "last_request_time s u = Some t0 \<and> t0 \<le> now_check e \<and> now_check e - t0 < timedelta_minutes 5"
  then have el: "0 \<le> now_check e - t0" "now_check e - t0 < timedelta_minutes 5" by simp_all
  show "\<exists>remaining. request_coffee s e u ch = (s, Inr (Some (CooldownMsg remaining)))
            \<and> remaining = \<lceil>real_of_int (timedelta_minutes 5 - (now_check e - t0))
                              / real_of_int (timedelta_minutes 1)\<rceil>
            \<and> 1 \<le> remaining \<and> remaining \<le> 5"
    using cooldown_rejects[of s u t0 e ch] h trunc_ceiling[OF el] trunc_range[OF el] by auto
next
  assume "last_request_time s u = Some t0 \<and> timedelta_minutes 5 \<le> now - t0"
  then show "can_request_coffee s now u =
            (if u \<in> set (waiting_pool s) then (False, Some AlreadyWaitingMsg) else (True, None))"
    using cooldown_over by blast
next
  show "(let (s1, r1) = request_coffee (init_service adm) (clock_env 0) u ch;
           (s2, r2) = request_coffee s1 (clock_env (timedelta_minutes 1)) u ch;
           s3 = timeout_user s2 te u;
           (s4, r4) = request_coffee s3 (clock_env (timedelta_minutes 6)) u ch
       in r1 = Inr (Some WaitingMsg) \<and> waiting_pool s1 = [u]
          \<and> r2 = Inr (Some (CooldownMsg 4)) \<and> s2 = s1
          \<and> r4 = Inr (Some WaitingMsg) \<and> waiting_pool s4 = [u])"
    by (rule cooldown_example)
qed

theorem cooldown_enforcement_witness:
  "(let s0 = (init_service None)\<lparr>waiting_pool := [''U1''], last_request_time := [''U1'' \<mapsto> 0]\<rparr>;
        e1 = clock_env (timedelta_minutes 1)
    in last_request_time s0 ''U1'' = Some 0 \<and> 0 \<le> now_check e1
       \<and> now_check e1 - 0 < timedelta_minutes 5
       \<and> request_coffee s0 e1 ''U1'' ''C1'' = (s0, Inr (Some (CooldownMsg 4)))
       \<and> timedelta_minutes 5 \<le> timedelta_minutes 6 - 0
       \<and> can_request_coffee s0 (timedelta_minutes 6) ''U1'' = (False, Some AlreadyWaitingMsg))"
  using cooldown_enforcement
    [of "(init_service None)\<lparr>waiting_pool := [''U1''], last_request_time := [''U1'' \<mapsto> 0]\<rparr>"
        "''U1''" 0 "clock_env (timedelta_minutes 1)" "''C1''" "timedelta_minutes 6"]
  by (simp add: Let_def init_service_def clock_env_def timedelta_minutes_def)

section \<open>Matching an arrival with the earliest waiting user\<close>

text \<open>
  Claim C7. The states the service reaches from its initial state by requests, expiries
  and match closures keep the pool invariant: the waiting users are pairwise different
  and each has the handle of its timeout job. In every state with that invariant, with
  any number of waiting users: if \<open>a\<close> is the first (earliest inserted) entry of the
  waiting pool, followed by the later entries \<open>rest\<close>, and a user \<open>b\<close>, who is not in
  cooldown and not in the pool, requests a coffee while opening the conversation and
  storing the match succeed, then \<open>b\<close> is not \<open>a\<close>, exactly \<open>a\<close> leaves the pool (all of
  \<open>rest\<close> stays, in order), \<open>a\<close>'s timeout job is no longer scheduled and its handle is
  removed, the match row \<open>(b, a)\<close> with status active is appended to the repository,
  the invariant still holds, and running \<open>a\<close>'s timeout callback afterwards changes
  nothing: the pool is still \<open>rest\<close>.
\<close>

theorem matching_correctness:
  assumes inv: "pool_inv s"
      and pool: "waiting_pool s = a # rest"
      and cool: "last_request_time s b = None \<or>
                 (\<exists>t. last_request_time s b = Some t \<and> timedelta_minutes 5 \<le> now_check e - t)"
      and nin: "b \<notin> set (waiting_pool s)"
      and ext: "conv_open e = Some g" "repo_create e = Some mid"
  shows "pool_inv (run (init_service adm) evs)
       \<and> b \<noteq> a
       \<and> waiting_pool (fst (request_coffee s e b ch)) = rest
       \<and> a \<notin> set (waiting_pool (fst (request_coffee s e b ch)))
       \<and> cron (fst (request_coffee s e b ch)) (''coffee_timeout_'' @ a) = None
       \<and> pool_timeout_jobs (fst (request_coffee s e b ch)) a = None
       \<and> match_repo (fst (request_coffee s e b ch)) = match_repo s @
            [\<lparr> row_id = mid, row_channel_id = g, user1_id = b, user2_id = a,
               row_status = Active, row_summary = None \<rparr>]
       \<and> pool_inv (fst (request_coffee s e b ch))
       \<and> timeout_user (fst (request_coffee s e b ch)) te a = fst (request_coffee s e b ch)
       \<and> waiting_pool (timeout_user (fst (request_coffee s e b ch)) te a) = rest"
proof -
  have reach: "pool_inv (run (init_service adm) evs)"
    by (rule run_pool_inv[OF init_pool_inv])
  have can: "fst (can_request_coffee s (now_check e) b)"
    using cool nin by (rule not_in_cooldown)
  define s1 where "s1 = s\<lparr>last_request_time := (last_request_time s)(b \<mapsto> now_record e),
                           waiting_pool := rest\<rparr>"
  define s2 where "s2 = cancel_partner_timeout s1 a"
  define s' where "s' = fst (request_coffee s e b ch)"
  have s': "s' = fst (start_match s2 e b a)"
    unfolding s'_def s2_def s1_def by (rule request_matches[OF can pool])
  have handle: "pool_timeout_jobs s a = Some (''coffee_timeout_'' @ a)"
    and arest: "a \<notin> set rest"
    using inv pool by (simp_all add: pool_inv_def)
  have ne: "b \<noteq> a" using nin pool by auto
  have p': "waiting_pool s' = rest"
    by (simp add: s' start_match_frame s2_def cancel_frame s1_def)
  have h': "pool_timeout_jobs s' a = None"
    by (simp add: s' start_match_frame s2_def cancel_handles)
  have "cron s2 (''coffee_timeout_'' @ a) = None"
    using handle by (simp add: s2_def s1_def cancel_cron)
  then have c': "cron s' (''coffee_timeout_'' @ a) = None"
    unfolding s' by (rule start_match_timeout_job)
  have m': "match_repo s' = match_repo s @
            [\<lparr> row_id = mid, row_channel_id = g, user1_id = b, user2_id = a,
               row_status = Active, row_summary = None \<rparr>]"
    by (simp add: s' start_match_created[OF ext] s2_def cancel_frame s1_def)
  have t': "timeout_user s' te a = s'"
    using arest by (simp add: timeout_noop p' h')
  have i': "pool_inv s'"
    unfolding s'_def by (rule request_pool_inv[OF inv])
  show ?thesis
    using reach ne p' arest c' h' m' i' t' unfolding s'_def[symmetric] by simp
qed

theorem matching_correctness_witness:
  "pool_inv two_waiting
   \<and> waiting_pool two_waiting = [''A'', ''X'']
   \<and> last_request_time two_waiting ''B'' = None
   \<and> ''B'' \<notin> set (waiting_pool two_waiting)
   \<and> conv_open match_env = Some ''G1'' \<and> repo_create match_env = Some ''m1''
   \<and> waiting_pool (fst (request_coffee two_waiting match_env ''B'' ''C1'')) = [''X'']
   \<and> cron (fst (request_coffee two_waiting match_env ''B'' ''C1'')) ''coffee_timeout_A'' = None
   \<and> pool_timeout_jobs (fst (request_coffee two_waiting match_env ''B'' ''C1'')) ''A'' = None
   \<and> match_repo (fst (request_coffee two_waiting match_env ''B'' ''C1'')) =
        [\<lparr> row_id = ''m1'', row_channel_id = ''G1'', user1_id = ''B'', user2_id = ''A'',
           row_status = Active, row_summary = None \<rparr>]
   \<and> timeout_user (fst (request_coffee two_waiting match_env ''B'' ''C1''))
        \<lparr> dm_open = Some ''D1'', dm_post_ok = True \<rparr> ''A''
       = fst (request_coffee two_waiting match_env ''B'' ''C1'')"
proof -
  have inv: "pool_inv two_waiting"
    by (simp add: pool_inv_def two_waiting_def init_service_def)
  have pool: "waiting_pool two_waiting = ''A'' # [''X'']"
    by (simp add: two_waiting_def)
  have cool: "last_request_time two_waiting ''B'' = None"
    by (simp add: two_waiting_def)
  have nin: "''B'' \<notin> set (waiting_pool two_waiting)"
    by (simp add: two_waiting_def)
  have ext: "conv_open match_env = Some ''G1''" "repo_create match_env = Some ''m1''"
    by (simp_all add: match_env_def)
  have repo: "match_repo two_waiting = []"
    by (simp add: two_waiting_def init_service_def)
  from matching_correctness[OF inv pool disjI1[OF cool] nin ext,
        where ch = "''C1''" and te = "\<lparr> dm_open = Some ''D1'', dm_post_ok = True \<rparr>"
          and adm = None and evs = "[]"]
  show ?thesis using inv pool cool nin ext by (simp add: repo)
qed

section \<open>The waiting pool never repeats a user; a match pairs two users\<close>

text \<open>
  Claim C8. After every sequence of requests, expiries and match closures, started from
  the initial service or from any state in which the pool has no repeated user and every
  stored match pairs two different users, the pool has no repeated user and every stored
  match pairs two different users. A request by a user who is in the pool is rejected
  (already waiting, or cooldown) and leaves the state as it was, so it cannot pair the
  user with their own earlier entry.
\<close>

theorem pool_exclusive_distinct_pairs:
  "distinct (waiting_pool (run (init_service adm) evs)) \<and> pairs_inv (run (init_service adm) evs)
   \<and> (distinct (waiting_pool s) \<and> pairs_inv s
        \<longrightarrow> distinct (waiting_pool (run s evs)) \<and> pairs_inv (run s evs))
   \<and> (u \<in> set (waiting_pool s)
        \<longrightarrow> (\<exists>m. request_coffee s e u ch = (s, Inr (Some m))
                 \<and> (m = AlreadyWaitingMsg \<or> (\<exists>r. m = CooldownMsg r))))"
proof (intro conjI impI)
  have "distinct (waiting_pool (init_service adm))" by (simp add: init_service_def)
  from run_inv[OF this init_pairs_inv, of evs]
  show "distinct (waiting_pool (run (init_service adm) evs))"
    and "pairs_inv (run (init_service adm) evs)" by simp_all
next
  assume "distinct (waiting_pool s) \<and> pairs_inv s"
  then show "distinct (waiting_pool (run s evs))" and "pairs_inv (run s evs)"
    using run_inv[of s evs] by simp_all
next
  assume "u \<in> set (waiting_pool s)"
  then show "\<exists>m. request_coffee s e u ch = (s, Inr (Some m))
                 \<and> (m = AlreadyWaitingMsg \<or> (\<exists>r. m = CooldownMsg r))"
    by (rule request_in_pool_rejected)
qed

theorem pool_exclusive_distinct_pairs_witness:
  "distinct (waiting_pool one_waiting) \<and> pairs_inv one_waiting
   \<and> run one_waiting [Request ''B'' ''C1'' match_env]
        = fst (request_coffee one_waiting match_env ''B'' ''C1'')
   \<and> distinct (waiting_pool (run one_waiting [Request ''B'' ''C1'' match_env]))
   \<and> pairs_inv (run one_waiting [Request ''B'' ''C1'' match_env])
   \<and> map (\<lambda>r. (user1_id r, user2_id r)) (match_repo (run one_waiting [Request ''B'' ''C1'' match_env]))
        = [(''B'', ''A'')]
   \<and> ''A'' \<in> set (waiting_pool one_waiting)
   \<and> request_coffee one_waiting (clock_env (timedelta_minutes 9)) ''A'' ''C1''
        = (one_waiting, Inr (Some AlreadyWaitingMsg))"
proof -
  have d: "distinct (waiting_pool one_waiting)" and p: "pairs_inv one_waiting"
    and a: "''A'' \<in> set (waiting_pool one_waiting)"
    by (simp_all add: one_waiting_fields pairs_inv_def)
  have r: "run one_waiting [Request ''B'' ''C1'' match_env]
        = fst (request_coffee one_waiting match_env ''B'' ''C1'')"
    by (simp add: run_def)
  have cr: "can_request_coffee one_waiting (timedelta_minutes 9) ''A'' = (False, Some AlreadyWaitingMsg)"
    by (simp add: can_request_coffee_def one_waiting_fields timedelta_minutes_def)
  from pool_exclusive_distinct_pairs
         [of None "[Request ''B'' ''C1'' match_env]" one_waiting "''A''"
             "clock_env (timedelta_minutes 9)" "''C1''"]
  have "distinct (waiting_pool (run one_waiting [Request ''B'' ''C1'' match_env]))
        \<and> pairs_inv (run one_waiting [Request ''B'' ''C1'' match_env])"
    and "\<exists>m. request_coffee one_waiting (clock_env (timedelta_minutes 9)) ''A'' ''C1''
              = (one_waiting, Inr (Some m))"
    using d p a by blast+
  moreover have "request_coffee one_waiting (clock_env (timedelta_minutes 9)) ''A'' ''C1''
        = (one_waiting, Inr (Some AlreadyWaitingMsg))"
    using request_rejected[of one_waiting "clock_env (timedelta_minutes 9)" "''A''" "''C1''"] cr
    by (simp add: clock_env_def)
  ultimately show ?thesis using d p a r by (simp add: matched_fields)
qed

section \<open>Tally and winners of a closed poll\<close>

text \<open>
  Claim C9. When the closing task finds an open poll and its database reads and the
  posting succeed, the result message lists every option with the number of stored votes
  for it (0 when there is none); when some option has a vote, the winners are exactly the
  options whose count is the maximum, in option order (all of them on a tie); otherwise
  the message says that nobody voted and names no winner, in particular when the poll
  has no stored vote. Examples on a two-option poll: votes \<open>A \<rightarrow> 0, B \<rightarrow> 0, C \<rightarrow> 1\<close> give
  the counts 2 and 1 and the first option as only winner; votes \<open>A \<rightarrow> 0, B \<rightarrow> 1\<close> give
  the counts 1 and 1 and both options as winners; no votes give 0 and 0 and no winner.
\<close>

theorem tally_with_ties:
  "(get_poll_by_ts True (database w) ts = Some poll \<and> is_active poll
      \<and> lookup_ok e \<and> results_ok e \<and> post_result_ok e
    \<longrightarrow> (let counts = option_counts (database w) (poll_id poll) (length (options poll));
              lines = zip (options poll) counts
          in slack (close_poll_task w e ts) =
               slack w
               @ (if delete_ok e then [DeleteMessage (poll_channel_id poll) ts] else [])
               @ [PostMessage (poll_channel_id poll)
                    (PollResult (topic poll) lines
                       (if \<exists>c \<in> set counts. 0 < c
                        then Winners (map fst (filter (\<lambda>p. snd p = Max (set counts)) lines))
                        else NoVotesCast))]
             \<and> (filter (\<lambda>v. vote_poll_id v = poll_id poll) (votes (database w)) = []
                  \<longrightarrow> (\<forall>c \<in> set counts. c = 0))))
   \<and> slack (close_poll_task (lunch_bot [vote ''A'' 0, vote ''B'' 0, vote ''C'' 1]) close_all_ok ''100.1'')
       = [DeleteMessage ''C1'' ''100.1'',
          PostMessage ''C1'' (PollResult ''Lunch'' [(''Kebap'', 2), (''Pizza'', 1)] (Winners [''Kebap'']))]
   \<and> slack (close_poll_task (lunch_bot [vote ''A'' 0, vote ''B'' 1]) close_all_ok ''100.1'')
       = [DeleteMessage ''C1'' ''100.1'',
          PostMessage ''C1'' (PollResult ''Lunch'' [(''Kebap'', 1), (''Pizza'', 1)]
                               (Winners [''Kebap'', ''Pizza'']))]
   \<and> slack (close_poll_task (lunch_bot []) close_all_ok ''100.1'')
       = [DeleteMessage ''C1'' ''100.1'',
          PostMessage ''C1'' (PollResult ''Lunch'' [(''Kebap'', 0), (''Pizza'', 0)] NoVotesCast)]"
proof (intro conjI impI)
  assume h: "get_poll_by_ts True (database w) ts = Some poll \<and> is_active poll
      \<and> lookup_ok e \<and> results_ok e \<and> post_result_ok e"
  then have look: "get_poll_by_ts (lookup_ok e) (database w) ts = Some poll" by simp
  have nov: "filter (\<lambda>v. vote_poll_id v = poll_id poll) (votes (database w)) = []
       \<longrightarrow> (\<forall>c \<in> set (option_counts (database w) (poll_id poll) (length (options poll))). c = 0)"
    by (auto simp: no_votes_counts)
  show "let counts = option_counts (database w) (poll_id poll) (length (options poll));
              lines = zip (options poll) counts
          in slack (close_poll_task w e ts) =
               slack w
               @ (if delete_ok e then [DeleteMessage (poll_channel_id poll) ts] else [])
               @ [PostMessage (poll_channel_id poll)
                    (PollResult (topic poll) lines
                       (if \<exists>c \<in> set counts. 0 < c
                        then Winners (map fst (filter (\<lambda>p. snd p = Max (set counts)) lines))
                        else NoVotesCast))]
             \<and> (filter (\<lambda>v. vote_poll_id v = poll_id poll) (votes (database w)) = []
                  \<longrightarrow> (\<forall>c \<in> set counts. c = 0))"
    using h nov
    by (simp add: close_poll_task_open[OF look] result_message_correct Let_def)
next
  show "slack (close_poll_task (lunch_bot [vote ''A'' 0, vote ''B'' 0, vote ''C'' 1]) close_all_ok ''100.1'')
       = [DeleteMessage ''C1'' ''100.1'',
          PostMessage ''C1'' (PollResult ''Lunch'' [(''Kebap'', 2), (''Pizza'', 1)] (Winners [''Kebap'']))]"
    by (simp only: lunch_close lunch_result_2_1)
next
  show "slack (close_poll_task (lunch_bot [vote ''A'' 0, vote ''B'' 1]) close_all_ok ''100.1'')
       = [DeleteMessage ''C1'' ''100.1'',
          PostMessage ''C1'' (PollResult ''Lunch'' [(''Kebap'', 1), (''Pizza'', 1)]
                               (Winners [''Kebap'', ''Pizza'']))]"
    by (simp only: lunch_close lunch_result_1_1)
next
  show "slack (close_poll_task (lunch_bot []) close_all_ok ''100.1'')
       = [DeleteMessage ''C1'' ''100.1'',
          PostMessage ''C1'' (PollResult ''Lunch'' [(''Kebap'', 0), (''Pizza'', 0)] NoVotesCast)]"
    by (simp only: lunch_close lunch_result_0_0)
qed

theorem tally_with_ties_witness:
  "get_poll_by_ts True (database (lunch_bot [vote ''A'' 0, vote ''B'' 0, vote ''C'' 1])) ''100.1''
     = Some lunch_poll
   \<and> is_active lunch_poll
   \<and> lookup_ok close_all_ok \<and> results_ok close_all_ok \<and> post_result_ok close_all_ok
   \<and> option_counts (database (lunch_bot [vote ''A'' 0, vote ''B'' 0, vote ''C'' 1]))
         (poll_id lunch_poll) (length (options lunch_poll)) = [2, 1]
   \<and> slack (close_poll_task (lunch_bot [vote ''A'' 0, vote ''B'' 0, vote ''C'' 1]) close_all_ok ''100.1'')
       = [DeleteMessage ''C1'' ''100.1'',
          PostMessage ''C1'' (PollResult ''Lunch'' [(''Kebap'', 2), (''Pizza'', 1)] (Winners [''Kebap'']))]"
proof -
  have look: "get_poll_by_ts True (database (lunch_bot [vote ''A'' 0, vote ''B'' 0, vote ''C'' 1])) ''100.1''
     = Some lunch_poll"
    by (simp add: get_poll_by_ts_def lunch_bot_def lunch_poll_def)
  have act: "is_active lunch_poll" by (simp add: lunch_poll_def)
  have env: "lookup_ok close_all_ok" "results_ok close_all_ok" "post_result_ok close_all_ok"
    by (simp_all add: close_all_ok_def)
  have counts: "option_counts (database (lunch_bot [vote ''A'' 0, vote ''B'' 0, vote ''C'' 1]))
         (poll_id lunch_poll) (length (options lunch_poll)) = [2, 1]"
    by (simp add: option_counts_def stored_votes_def lunch_bot_def lunch_poll_def vote_def upt_rec)
  from tally_with_ties[of "lunch_bot [vote ''A'' 0, vote ''B'' 0, vote ''C'' 1]" "''100.1''"
                           lunch_poll close_all_ok]
  show ?thesis using look act env counts by simp
qed

section \<open>The sliding window of the rate limiter\<close>

text \<open>
  Claim C10. Start from a new limiter and make any sequence of \<open>is_allowed\<close> calls, by
  any users, none of them later than the clock reading \<open>now\<close> of a further call by user
  \<open>u\<close>. That call is allowed exactly when the number of earlier allowed calls by \<open>u\<close>
  with a time after \<open>now\<close> minus the window is below \<open>max_requests\<close>. Every call prunes
  the user's stored times to the window; an allowed call appends its time, a refused call
  does not, and the lists of other users are untouched. In the \<open>/oylama\<close> handler the
  limiter is asked first: on a refusal the handler's only call is the reply carrying the
  seconds to wait (no user lookup, admin test, parsing or poll creation); on an allowed
  call it continues with the user lookup and the admin test.
\<close>

theorem sliding_window_rate_limit:
  "(list_all (\<lambda>p. snd p \<le> now) calls
      \<longrightarrow> (fst (snd (is_allowed (fst (run_calls (new_rate_limiter m w) calls)) now u))
           \<longleftrightarrow> int (allowed_in_window w calls (snd (run_calls (new_rate_limiter m w) calls)) u now) < m))
   \<and> requests (fst (is_allowed rl now u)) u
        = filter (\<lambda>t. now - timedelta_seconds (window_seconds rl) < t) (requests rl u)
          @ (if fst (snd (is_allowed rl now u)) then [now] else [])
   \<and> (u' \<noteq> u \<longrightarrow> requests (fst (is_allowed rl now u)) u' = requests rl u')
   \<and> (\<not> fst (snd (is_allowed rl (clock e) user))
        \<longrightarrow> (\<exists>wait. poll_handler_command rl e user channel raw
                      = (fst (is_allowed rl (clock e) user),
                         [PostEphemeralCall channel user
                            (LimiterText (Some (TooManyRequestsMsg wait)))])))
   \<and> (fst (snd (is_allowed rl (clock e) user))
        \<longrightarrow> take 2 (snd (poll_handler_command rl e user channel raw))
              = [GetBySlackId user, UsersInfoCall user])"
proof (intro conjI impI)
  assume "list_all (\<lambda>p. snd p \<le> now) calls"
  then have "\<forall>p \<in> set calls. snd p \<le> now" by (simp add: list_all_iff)
  then show "fst (snd (is_allowed (fst (run_calls (new_rate_limiter m w) calls)) now u))
           \<longleftrightarrow> int (allowed_in_window w calls (snd (run_calls (new_rate_limiter m w) calls)) u now) < m"
    by (rule decision_from_history)
next
  show "requests (fst (is_allowed rl now u)) u
        = filter (\<lambda>t. now - timedelta_seconds (window_seconds rl) < t) (requests rl u)
          @ (if fst (snd (is_allowed rl now u)) then [now] else [])"
    by (simp add: is_allowed_requests)
next
  assume "u' \<noteq> u"
  then show "requests (fst (is_allowed rl now u)) u' = requests rl u'"
    by (simp add: is_allowed_requests)
next
  assume d: "\<not> fst (snd (is_allowed rl (clock e) user))"
  from denied_text[OF d] obtain wait
    where "snd (snd (is_allowed rl (clock e) user)) = Some (TooManyRequestsMsg wait)" by blast
  then show "\<exists>wait. poll_handler_command rl e user channel raw
                      = (fst (is_allowed rl (clock e) user),
                         [PostEphemeralCall channel user
                            (LimiterText (Some (TooManyRequestsMsg wait)))])"
    using handler_denied[OF d, of channel raw] by auto
next
  assume "fst (snd (is_allowed rl (clock e) user))"
  then show "take 2 (snd (poll_handler_command rl e user channel raw))
              = [GetBySlackId user, UsersInfoCall user]"
    by (rule handler_allowed(2))
qed

theorem sliding_window_rate_limit_witness:
  "list_all (\<lambda>p. snd p \<le> timedelta_seconds 20) two_calls
   \<and> snd (run_calls (new_rate_limiter 2 60) two_calls) = [True, True]
   \<and> allowed_in_window 60 two_calls [True, True] ''U1'' (timedelta_seconds 20) = 2
   \<and> \<not> fst (snd (is_allowed (fst (run_calls (new_rate_limiter 2 60) two_calls))
                   (timedelta_seconds 20) ''U1''))
   \<and> ''U2'' \<noteq> ''U1''
   \<and> fst (snd (is_allowed (fst (run_calls (new_rate_limiter 2 60) two_calls))
                 (timedelta_seconds 20) ''U2''))
   \<and> poll_handler_command (fst (run_calls (new_rate_limiter 2 60) two_calls)) at_20_seconds
        ''U1'' ''C1'' ''10 Lunch | A | B''
       = (fst (run_calls (new_rate_limiter 2 60) two_calls),
          [PostEphemeralCall ''C1'' ''U1'' (LimiterText (Some (TooManyRequestsMsg 40)))])"
proof -
  define rl where "rl = fst (run_calls (new_rate_limiter 2 60) two_calls)"
  have la: "list_all (\<lambda>p. snd p \<le> timedelta_seconds 20) two_calls"
    by (simp add: two_calls_def timedelta_seconds_def)
  have ds: "snd (run_calls (new_rate_limiter 2 60) two_calls) = [True, True]"
    by (simp add: two_calls_run)
  have cnt: "allowed_in_window 60 two_calls [True, True] ''U1'' (timedelta_seconds 20) = 2"
    by (simp add: allowed_in_window_def two_calls_def timedelta_seconds_def)
  have cnt2: "allowed_in_window 60 two_calls [True, True] ''U2'' (timedelta_seconds 20) = 0"
    by (simp add: allowed_in_window_def two_calls_def timedelta_seconds_def)
  note t1 = sliding_window_rate_limit[where calls = two_calls and now = "timedelta_seconds 20"
      and m = 2 and w = 60 and u = "''U1''" and rl = rl and u' = "''U2''" and e = at_20_seconds
      and user = "''U1''" and channel = "''C1''" and raw = "''10 Lunch | A | B''"]
  from t1 la have denied: "\<not> fst (snd (is_allowed rl (timedelta_seconds 20) ''U1''))"
    unfolding rl_def ds cnt by simp
  note t2 = sliding_window_rate_limit[where calls = two_calls and now = "timedelta_seconds 20"
      and m = 2 and w = 60 and u = "''U2''" and rl = rl and u' = "''U1''" and e = at_20_seconds
      and user = "''U1''" and channel = "''C1''" and raw = "''10 Lunch | A | B''"]
  from t2 la have allowed: "fst (snd (is_allowed rl (timedelta_seconds 20) ''U2''))"
    unfolding rl_def ds cnt2 by simp
  have rlv: "rl = \<lparr> max_requests = 2, window_seconds = 60,
           requests = (\<lambda>_. [])(''U1'' := [0, timedelta_seconds 10]) \<rparr>"
    by (simp add: rl_def two_calls_run)
  have h: "poll_handler_command rl at_20_seconds ''U1'' ''C1'' ''10 Lunch | A | B''
       = (rl, [PostEphemeralCall ''C1'' ''U1'' (LimiterText (Some (TooManyRequestsMsg 40)))])"
    unfolding rlv
    by (simp add: poll_handler_command_def is_allowed_def Let_def at_20_seconds_def
          timedelta_seconds_def int_trunc_div_def)
  show ?thesis
    using la ds cnt denied allowed h unfolding rl_def by simp
qed

end
